theory Spec2Isabelle
  imports Main "HOL-Library.AList" "HOL-Library.Sublist" "HOL-Library.Word"
begin

section \<open>Python values and the operations run.py applies to them\<close>

text \<open>
  A plan is the document \<^verbatim>\<open>json.load\<close> returns: nested dicts, lists, strings and
  numbers. The engine of \<^verbatim>\<open>src/run.py\<close> never looks inside a float, so a float is kept
  as its IEEE-754 binary64 bit pattern; a dict is an association list in insertion
  order, with string keys as JSON has them. \<open>PObj\<close> is an object of the instrument
  library (a level built by \<^verbatim>\<open>pspymethods.multi_step_amperometry_level\<close>), which the
  engine only passes on.
\<close>

datatype pyval =
    PNone
  | PBool bool
  | PInt int
  | PFloat "64 word"
  | PStr string
  | PList "pyval list"
  | PDict "(string \<times> pyval) list"
  | PObj "(string \<times> pyval) list"

type_synonym pydict = "(string \<times> pyval) list"

text \<open>
  The exceptions the engine can meet. \<open>External\<close> is any exception raised inside the
  instrument library or the file system. \<open>Unmodelled\<close> marks the three places where
  Python goes on with a value this model cannot represent (a dict key that is not a
  string, \<^verbatim>\<open>dict(x)\<close> of a non-empty sequence of pairs, a float \<^verbatim>\<open>level_index + 1\<close>):
  there the model says nothing about the program.
\<close>

datatype error =
    KeyError pyval
  | IndexError
  | TypeError
  | AttributeError
  | External string
  | Unmodelled

fun bind_err :: "error + 'a \<Rightarrow> ('a \<Rightarrow> error + 'b) \<Rightarrow> error + 'b" where
  "bind_err (Inl e) k = Inl e"
| "bind_err (Inr x) k = k x"

text \<open>A list comprehension whose element expression may raise: left to right, the first
  exception ends it.\<close>

fun map_err :: "('a \<Rightarrow> error + 'b) \<Rightarrow> 'a list \<Rightarrow> error + 'b list" where
  "map_err f [] = Inr []"
| "map_err f (x # xs) =
     (case f x of
        Inl e \<Rightarrow> Inl e
      | Inr y \<Rightarrow> (case map_err f xs of Inl e \<Rightarrow> Inl e | Inr ys \<Rightarrow> Inr (y # ys)))"

text \<open>\<^verbatim>\<open>obj[key]\<close> with a string key: only a dict accepts it.\<close>

fun py_getitem :: "pyval \<Rightarrow> string \<Rightarrow> error + pyval" where
  "py_getitem (PDict d) k =
     (case map_of d k of None \<Rightarrow> Inl (KeyError (PStr k)) | Some v \<Rightarrow> Inr v)"
| "py_getitem _ k = Inl TypeError"

text \<open>\<^verbatim>\<open>d.get(key, default)\<close> on a dict.\<close>

definition py_get :: "pydict \<Rightarrow> string \<Rightarrow> pyval \<Rightarrow> pyval" where
  "py_get d k dflt = (case map_of d k of None \<Rightarrow> dflt | Some v \<Rightarrow> v)"

text \<open>Truth value of an object, as \<^verbatim>\<open>if x:\<close> and \<^verbatim>\<open>x and y\<close> take it. A float is false
  when it is \<open>+0.0\<close> or \<open>-0.0\<close>.\<close>

fun truthy :: "pyval \<Rightarrow> bool" where
  "truthy PNone = False"
| "truthy (PBool b) = b"
| "truthy (PInt i) = (i \<noteq> 0)"
| "truthy (PFloat w) = (w \<noteq> 0 \<and> w \<noteq> 0x8000000000000000)"
| "truthy (PStr s) = (s \<noteq> [])"
| "truthy (PList xs) = (xs \<noteq> [])"
| "truthy (PDict d) = (d \<noteq> [])"
| "truthy (PObj d) = True"

text \<open>\<^verbatim>\<open>for x in obj\<close>: a list gives its elements, a string its characters, a dict its
  keys; nothing else in a JSON document is iterable.\<close>

fun py_iter :: "pyval \<Rightarrow> error + pyval list" where
  "py_iter (PList xs) = Inr xs"
| "py_iter (PStr s) = Inr (map (\<lambda>c. PStr [c]) s)"
| "py_iter (PDict d) = Inr (map (\<lambda>kv. PStr (fst kv)) d)"
| "py_iter _ = Inl TypeError"

text \<open>\<^verbatim>\<open>range(1, reps + 1)\<close>. A bool is an int in Python; a float passes the addition
  and is refused by \<^verbatim>\<open>range\<close>; everything else is refused by the addition.\<close>

fun py_range1 :: "pyval \<Rightarrow> error + int list" where
  "py_range1 (PInt n) = Inr [1..n]"
| "py_range1 (PBool b) = Inr [1..(if b then 1 else 0)]"
| "py_range1 _ = Inl TypeError"

text \<open>The position \<^verbatim>\<open>xs[i]\<close> reads or writes in a list of length \<open>n\<close>: a negative index
  counts from the end, an index outside \<open>-n \<le> i < n\<close> raises IndexError.\<close>

definition list_index :: "nat \<Rightarrow> int \<Rightarrow> error + nat" where
  "list_index n i =
     (if 0 \<le> i \<and> i < int n then Inr (nat i)
      else if i < 0 \<and> - int n \<le> i then Inr (nat (int n + i))
      else Inl IndexError)"

fun py_index :: "nat \<Rightarrow> pyval \<Rightarrow> error + nat" where
  "py_index n (PInt i) = list_index n i"
| "py_index n (PBool b) = list_index n (if b then 1 else 0)"
| "py_index n _ = Inl TypeError"

text \<open>\<^verbatim>\<open>obj[key] = v\<close> with a string key: a dict takes it (an existing key keeps its
  place, a new key goes last), a list refuses it.\<close>

fun py_setitem :: "pyval \<Rightarrow> string \<Rightarrow> pyval \<Rightarrow> error + pyval" where
  "py_setitem (PDict d) k v = Inr (PDict (AList.update k v d))"
| "py_setitem _ k v = Inl TypeError"

text \<open>\<^verbatim>\<open>obj.copy()\<close>: dicts and lists have it. In this value model a copy is an equal
  value; what the copy is for, aliasing, is the subject of the store model below.\<close>

fun py_copy :: "pyval \<Rightarrow> error + pyval" where
  "py_copy (PDict d) = Inr (PDict d)"
| "py_copy (PList xs) = Inr (PList xs)"
| "py_copy _ = Inl AttributeError"

text \<open>\<^verbatim>\<open>f(**obj)\<close> needs a mapping.\<close>

fun py_kwargs :: "pyval \<Rightarrow> error + pydict" where
  "py_kwargs (PDict d) = Inr d"
| "py_kwargs _ = Inl TypeError"

text \<open>\<^verbatim>\<open>dict(obj)\<close>: a dict is copied, an empty sequence gives the empty dict, a scalar
  is refused. A non-empty sequence is read by Python as a sequence of pairs.\<close>

fun py_dict :: "pyval \<Rightarrow> error + pydict" where
  "py_dict (PDict d) = Inr d"
| "py_dict (PList []) = Inr []"
| "py_dict (PStr []) = Inr []"
| "py_dict (PList (x # xs)) = Inl Unmodelled"
| "py_dict (PStr (c # cs)) = Inl Unmodelled"
| "py_dict _ = Inl TypeError"

text \<open>\<^verbatim>\<open>params[key] = v\<close> where the key is a value of the plan: a string is the usual
  case, a list or a dict is unhashable.\<close>

fun py_setkey :: "pydict \<Rightarrow> pyval \<Rightarrow> pyval \<Rightarrow> error + pydict" where
  "py_setkey d (PStr k) v = Inr (AList.update k v d)"
| "py_setkey d (PList xs) v = Inl TypeError"
| "py_setkey d (PDict xs) v = Inl TypeError"
| "py_setkey d _ v = Inl Unmodelled"

text \<open>\<^verbatim>\<open>lvl_idx + 1\<close>.\<close>

fun py_add1 :: "pyval \<Rightarrow> error + pyval" where
  "py_add1 (PInt i) = Inr (PInt (i + 1))"
| "py_add1 (PBool b) = Inr (PInt ((if b then 1 else 0) + 1))"
| "py_add1 (PFloat w) = Inl Unmodelled"
| "py_add1 _ = Inl TypeError"

subsection \<open>Strings\<close>

definition lower_char :: "char \<Rightarrow> char" where
  "lower_char c =
     (case map_of (zip ''ABCDEFGHIJKLMNOPQRSTUVWXYZ'' ''abcdefghijklmnopqrstuvwxyz'') c of
        None \<Rightarrow> c
      | Some l \<Rightarrow> l)"

text \<open>\<^verbatim>\<open>m.lower()\<close>: only a string has it. (Letters outside ASCII are left as they are.)\<close>

fun py_lower :: "pyval \<Rightarrow> error + string" where
  "py_lower (PStr s) = Inr (map lower_char s)"
| "py_lower _ = Inl AttributeError"

fun str_nat :: "nat \<Rightarrow> string" where
  "str_nat n =
     (if n < 10 then [''0123456789'' ! n]
      else str_nat (n div 10) @ [''0123456789'' ! (n mod 10)])"

declare str_nat.simps [simp del]

definition str_int :: "int \<Rightarrow> string" where
  "str_int i = (if i < 0 then ''-'' @ str_nat (nat (- i)) else str_nat (nat i))"

text \<open>What an f-string puts for \<^verbatim>\<open>{v}\<close>. The text of a float or of a container is
  left to the parameter \<open>fmt\<close>.\<close>

fun py_str :: "(pyval \<Rightarrow> string) \<Rightarrow> pyval \<Rightarrow> string" where
  "py_str fmt PNone = ''None''"
| "py_str fmt (PBool b) = (if b then ''True'' else ''False'')"
| "py_str fmt (PInt i) = str_int i"
| "py_str fmt (PStr s) = s"
| "py_str fmt v = fmt v"

section \<open>Effects: the trace, the outside world and exceptions\<close>

text \<open>
  One call of \<^verbatim>\<open>run_one\<close> (\<^verbatim>\<open>src/run.py\<close>, line 91), by its arguments. The manager is
  named by the position at which \<^verbatim>\<open>connect_channels\<close> created it; \<^verbatim>\<open>all_meas\<close>, the
  list every channel appends to, is part of the outside world.
\<close>

record run_call =
  rc_mgr :: nat
  rc_ch :: int
  rc_method :: string
  rc_params :: pyval
  rc_title :: string
  rc_conc :: pyval
  rc_session_dir :: string
  rc_exp_desc :: string

datatype event =
    Connect nat int
  | RunOne run_call
  | SkipUnknownType int pyval
  | Disconnect nat
  | SaveSession

text \<open>
  The state a run of the program threads: the trace of what the engine did, in order,
  and the outside world (instrument, file system, the shared measurement list), whose
  type and behaviour are parameters.
\<close>

record 'w state =
  trace :: "event list"
  world :: 'w

text \<open>
  The collaborators of \<^verbatim>\<open>run.py\<close> that are not part of the repository: the instrument
  library \<^verbatim>\<open>pspython\<close>, the file system and Python's formatting of floats. Each may
  change the world and may raise (\<open>Some msg\<close>).
  \<^item> \<open>ext_format\<close>: \<^verbatim>\<open>str(v)\<close> of a float or a container;
  \<^item> \<open>ext_level\<close>: \<^verbatim>\<open>pspymethods.multi_step_amperometry_level(**kw)\<close>;
  \<^item> \<open>ext_connect\<close>: \<^verbatim>\<open>mgr.connect(available[ch])\<close>;
  \<^item> \<open>ext_files\<close>: \<^verbatim>\<open>run_one\<close> up to the header row of the CSV file;
  \<^item> \<open>ext_measure\<close>: building the method object, \<^verbatim>\<open>mgr.measure\<close> with the samples
    streamed to the CSV file, and the append to \<^verbatim>\<open>all_meas\<close>;
  \<^item> \<open>ext_log\<close>: writing the JSON log of a run;
  \<^item> \<open>ext_disconnect\<close>: \<^verbatim>\<open>mgr.disconnect()\<close>;
  \<^item> \<open>ext_save\<close>: \<^verbatim>\<open>save_session_file(session_file, all_measurements)\<close>.
\<close>

record 'w externals =
  ext_format :: "pyval \<Rightarrow> string"
  ext_level :: "pydict \<Rightarrow> string + pyval"
  ext_connect :: "nat \<Rightarrow> int \<Rightarrow> 'w \<Rightarrow> string option \<times> 'w"
  ext_files :: "run_call \<Rightarrow> 'w \<Rightarrow> string option \<times> 'w"
  ext_measure :: "run_call \<Rightarrow> 'w \<Rightarrow> string option \<times> 'w"
  ext_log :: "run_call \<Rightarrow> pydict \<Rightarrow> 'w \<Rightarrow> string option \<times> 'w"
  ext_disconnect :: "nat \<Rightarrow> 'w \<Rightarrow> string option \<times> 'w"
  ext_save :: "'w \<Rightarrow> string option \<times> 'w"

text \<open>A statement: it returns \<open>None\<close> when it completes and \<open>Some e\<close> when it raises
  \<open>e\<close>, with the state reached.\<close>

type_synonym 'w proc = "'w state \<Rightarrow> error option \<times> 'w state"

definition emit :: "event \<Rightarrow> 'w proc" where
  "emit ev s = (None, s\<lparr>trace := trace s @ [ev]\<rparr>)"

definition raise :: "error \<Rightarrow> 'w proc" where
  "raise e s = (Some e, s)"

definition call_ext :: "('w \<Rightarrow> string option \<times> 'w) \<Rightarrow> 'w proc" where
  "call_ext f s =
     (case f (world s) of (r, w) \<Rightarrow> (map_option External r, s\<lparr>world := w\<rparr>))"

text \<open>\<open>andthen p q\<close> is \<^verbatim>\<open>p; q\<close>: an exception of \<open>p\<close> leaves \<open>q\<close> out.\<close>

definition andthen :: "'w proc \<Rightarrow> 'w proc \<Rightarrow> 'w proc" where
  "andthen p q s = (case p s of (None, s') \<Rightarrow> q s' | (Some e, s') \<Rightarrow> (Some e, s'))"

text \<open>\<open>try_eval r k\<close>: an expression that raised propagates, a value goes to \<open>k\<close>.\<close>

definition try_eval :: "error + 'a \<Rightarrow> ('a \<Rightarrow> 'w proc) \<Rightarrow> 'w proc" where
  "try_eval r k s = (case r of Inl e \<Rightarrow> (Some e, s) | Inr x \<Rightarrow> k x s)"

text \<open>\<^verbatim>\<open>for x in xs: body\<close>: the first iteration that raises ends the loop.\<close>

fun for_each :: "('a \<Rightarrow> 'w proc) \<Rightarrow> 'a list \<Rightarrow> 'w proc" where
  "for_each body [] s = (None, s)"
| "for_each body (x # xs) s =
     (case body x s of
        (None, s') \<Rightarrow> for_each body xs s'
      | (Some e, s') \<Rightarrow> (Some e, s'))"

section \<open>run_one\<close>

definition METHOD_FUNC_MAP :: "string list" where
  "METHOD_FUNC_MAP = [''LSV'', ''CV'', ''SWV'', ''CA'', ''MSA'']"

text \<open>The parameters \<^verbatim>\<open>run_one\<close> logs (lines 120 to 123): for MSA the raw levels go
  back under \<^verbatim>\<open>levels\<close>, on a copy.\<close>

definition save_params :: "string \<Rightarrow> pydict \<Rightarrow> pydict" where
  "save_params method_name params =
     (if method_name = ''MSA'' then
        (case map_of params ''_raw_levels'' of
           None \<Rightarrow> params
         | Some raw \<Rightarrow> AList.update ''levels'' raw (AList.delete ''_raw_levels'' params))
      else params)"

text \<open>
  \<^verbatim>\<open>run_one\<close> (lines 91 to 135). The call is recorded in the trace. Then come, in
  the order of the source: the directories and the CSV file with its header row, the
  lookup of the method in \<^verbatim>\<open>METHOD_FUNC_MAP\<close> (a KeyError for any other name), the
  keyword arguments \<^verbatim>\<open>**params\<close> (a TypeError unless \<open>params\<close> is a dict), the
  measurement, and the log with the parameters of \<open>save_params\<close>. The names of the
  files are formed from the arguments and are left to the file system.
\<close>

definition run_one :: "'w externals \<Rightarrow> run_call \<Rightarrow> 'w proc" where
  "run_one ext c =
     andthen (emit (RunOne c))
    (andthen (call_ext (ext_files ext c))
       (if rc_method c \<notin> set METHOD_FUNC_MAP then raise (KeyError (PStr (rc_method c)))
        else try_eval (py_kwargs (rc_params c)) (\<lambda>kw.
               andthen (call_ext (ext_measure ext c))
                       (call_ext (ext_log ext c (save_params (rc_method c) kw))))))"

section \<open>run_channel\<close>

text \<open>\<^verbatim>\<open>pspymethods.multi_step_amperometry_level(**lvl)\<close>: the keyword arguments need
  a dict, and the constructor may raise.\<close>

definition make_level :: "'w externals \<Rightarrow> pyval \<Rightarrow> error + pyval" where
  "make_level ext lvl =
     bind_err (py_kwargs lvl) (\<lambda>kw.
       case ext_level ext kw of Inl msg \<Rightarrow> Inl (External msg) | Inr obj \<Rightarrow> Inr obj)"

text \<open>Lines 149 to 155 and 174 to 180: the parameters of an MSA run, from the dict
  they start from, the raw levels and the level objects built from them.\<close>

definition msa_params :: "pydict \<Rightarrow> pyval \<Rightarrow> pyval list \<Rightarrow> pydict" where
  "msa_params bd raw objs =
     AList.update ''levels'' (PList objs)
       (AList.update ''_raw_levels'' raw
          (filter (\<lambda>kv. fst kv \<noteq> ''levels'') bd))"

text \<open>Lines 147 to 157: the parameters of a single step.\<close>

definition single_params :: "'w externals \<Rightarrow> pyval \<Rightarrow> pydict \<Rightarrow> error + pyval" where
  "single_params ext m step =
     (if m = PStr ''MSA'' then
        bind_err (py_getitem (PDict step) ''params'') (\<lambda>p.
        bind_err (py_getitem p ''levels'') (\<lambda>raw.
        bind_err (py_kwargs p) (\<lambda>pd.
        bind_err (py_iter raw) (\<lambda>lvls.
        bind_err (map_err (make_level ext) lvls) (\<lambda>objs.
          Inr (PDict (msa_params pd raw objs)))))))
      else py_getitem (PDict step) ''params'')"

text \<open>\<^verbatim>\<open>raw[lvl_idx][key] = val\<close> (lines 171 and 173).\<close>

definition set_level_field ::
  "pyval list \<Rightarrow> pyval \<Rightarrow> string \<Rightarrow> pyval \<Rightarrow> error + pyval list" where
  "set_level_field raw lvl_idx key val =
     bind_err (py_index (length raw) lvl_idx) (\<lambda>j.
     bind_err (py_setitem (raw ! j) key val) (\<lambda>lvl.
       Inr (raw[j := lvl])))"

text \<open>Lines 169 to 173: the raw levels of one swept value.\<close>

definition msa_sweep_levels ::
  "pydict \<Rightarrow> pyval \<Rightarrow> pyval \<Rightarrow> pyval \<Rightarrow> error + pyval list" where
  "msa_sweep_levels step base lvl_idx val =
     bind_err (py_getitem base ''levels'') (\<lambda>lv.
     bind_err (py_iter lv) (\<lambda>lvls.
     bind_err (map_err py_copy lvls) (\<lambda>raw.
     bind_err (if truthy (py_get step ''sweep_potential'' PNone)
               then set_level_field raw lvl_idx ''level'' val else Inr raw) (\<lambda>raw1.
       if truthy (py_get step ''sweep_duration'' PNone)
       then set_level_field raw1 lvl_idx ''duration'' val else Inr raw1))))"

text \<open>Lines 169 to 180: the parameters of one swept value of an MSA level sweep.\<close>

definition msa_sweep_params ::
  "'w externals \<Rightarrow> pydict \<Rightarrow> pyval \<Rightarrow> pyval \<Rightarrow> pyval \<Rightarrow> error + pyval" where
  "msa_sweep_params ext step base lvl_idx val =
     bind_err (msa_sweep_levels step base lvl_idx val) (\<lambda>raw.
     bind_err (py_kwargs base) (\<lambda>bd.
     bind_err (map_err (make_level ext) raw) (\<lambda>objs.
       Inr (PDict (msa_params bd (PList raw) objs)))))"

text \<open>Lines 188 and 189: the parameters of one swept value of a generic sweep.\<close>

definition sweep_params :: "pyval \<Rightarrow> pyval \<Rightarrow> pyval \<Rightarrow> error + pyval" where
  "sweep_params base sweep_param val =
     bind_err (py_dict base) (\<lambda>bd.
     bind_err (py_setkey bd sweep_param val) (\<lambda>params. Inr (PDict params)))"

text \<open>The three titles (lines 160, 182 and 191).\<close>

definition single_title :: "pyval \<Rightarrow> nat \<Rightarrow> int \<Rightarrow> error + string" where
  "single_title m idx_step i =
     bind_err (py_lower m) (\<lambda>ml.
       Inr (ml @ ''_step'' @ str_nat idx_step @ ''_run'' @ str_int i))"

definition msa_sweep_title ::
  "(pyval \<Rightarrow> string) \<Rightarrow> pyval \<Rightarrow> pyval \<Rightarrow> pyval \<Rightarrow> int \<Rightarrow> error + string" where
  "msa_sweep_title fmt m lvl_idx val i =
     bind_err (py_lower m) (\<lambda>ml.
     bind_err (py_add1 lvl_idx) (\<lambda>k.
       Inr (ml @ ''_lvl'' @ py_str fmt k @ ''_'' @ py_str fmt val @ ''_run'' @ str_int i)))"

definition sweep_title ::
  "(pyval \<Rightarrow> string) \<Rightarrow> pyval \<Rightarrow> pyval \<Rightarrow> pyval \<Rightarrow> int \<Rightarrow> error + string" where
  "sweep_title fmt m sweep_param val i =
     bind_err (py_lower m) (\<lambda>ml.
       Inr (ml @ ''_'' @ py_str fmt sweep_param @ py_str fmt val @ ''_run'' @ str_int i))"

text \<open>The fixed arguments of \<^verbatim>\<open>run_one\<close> inside one channel task.\<close>

record chan =
  ch_mgr :: nat
  ch_id :: int
  ch_session_dir :: string
  ch_exp_desc :: string

definition mk_call :: "chan \<Rightarrow> pyval \<Rightarrow> pyval \<Rightarrow> pyval \<Rightarrow> string \<Rightarrow> run_call" where
  "mk_call c m params conc title =
     \<lparr>rc_mgr = ch_mgr c, rc_ch = ch_id c,
      rc_method = (case m of PStr s \<Rightarrow> s | _ \<Rightarrow> []),
      rc_params = params, rc_title = title, rc_conc = conc,
      rc_session_dir = ch_session_dir c, rc_exp_desc = ch_exp_desc c\<rparr>"

text \<open>\<^verbatim>\<open>for i in range(1, reps + 1): title = ...; await run_one(...)\<close>. The title is
  formed first, and \<^verbatim>\<open>m.lower()\<close> in it has made sure that \<open>m\<close> is a string when
  \<^verbatim>\<open>run_one\<close> is called.\<close>

definition run_repeats ::
  "'w externals \<Rightarrow> chan \<Rightarrow> pyval \<Rightarrow> pyval \<Rightarrow> pyval \<Rightarrow> pyval \<Rightarrow>
   (int \<Rightarrow> error + string) \<Rightarrow> 'w proc" where
  "run_repeats ext c m params conc reps title_of =
     try_eval (py_range1 reps)
       (for_each (\<lambda>i. try_eval (title_of i) (\<lambda>title.
          run_one ext (mk_call c m params conc title))))"

text \<open>The body of the loop over the steps (lines 141 to 195).\<close>

definition run_step :: "'w externals \<Rightarrow> chan \<Rightarrow> nat \<Rightarrow> pyval \<Rightarrow> 'w proc" where
  "run_step ext c idx_step step =
     try_eval (py_getitem step ''method'') (\<lambda>m.
     try_eval (py_kwargs step) (\<lambda>d.
       let typ = py_get d ''type'' (PStr ''single'');
           reps = py_get d ''repeats'' (PInt 1);
           conc = py_get d ''concentration'' PNone
       in
       if typ = PStr ''single'' then
         try_eval (single_params ext m d) (\<lambda>params.
           run_repeats ext c m params conc reps (single_title m idx_step))
       else if typ = PStr ''sweep'' then
         try_eval (py_getitem step ''base_params'') (\<lambda>base.
           if m = PStr ''MSA'' \<and> truthy (py_get d ''modify_levels'' PNone) then
             try_eval (py_getitem step ''level_index'') (\<lambda>lvl_idx.
             try_eval (py_getitem step ''sweep_values'') (\<lambda>sv.
             try_eval (py_iter sv)
               (for_each (\<lambda>val.
                  try_eval (msa_sweep_params ext d base lvl_idx val) (\<lambda>params.
                    run_repeats ext c m params conc reps
                      (msa_sweep_title (ext_format ext) m lvl_idx val))))))
           else
             try_eval (py_getitem step ''sweep_param'') (\<lambda>sweep_param.
             try_eval (py_getitem step ''sweep_values'') (\<lambda>sv.
             try_eval (py_iter sv)
               (for_each (\<lambda>val.
                  try_eval (sweep_params base sweep_param val) (\<lambda>params.
                    run_repeats ext c m params conc reps
                      (sweep_title (ext_format ext) m sweep_param val)))))))
       else emit (SkipUnknownType (ch_id c) typ)))"

text \<open>The loop of line 140 over the numbered steps.\<close>

definition run_steps :: "'w externals \<Rightarrow> chan \<Rightarrow> (nat \<times> pyval) list \<Rightarrow> 'w proc" where
  "run_steps ext c = for_each (\<lambda>(idx_step, step). run_step ext c idx_step step)"

text \<open>\<^verbatim>\<open>run_channel\<close> (lines 138 to 195). \<open>managers\<close> is the dict of
  \<^verbatim>\<open>connect_channels\<close>, from channel to manager.\<close>

definition run_channel ::
  "'w externals \<Rightarrow> int \<Rightarrow> pyval \<Rightarrow> string \<Rightarrow> (int \<times> nat) list \<Rightarrow> string \<Rightarrow> 'w proc" where
  "run_channel ext ch plan session_dir managers exp_desc =
     (case map_of managers ch of
        None \<Rightarrow> raise (KeyError (PInt ch))
      | Some mgr \<Rightarrow>
          try_eval (py_getitem plan ''sequence'') (\<lambda>sq.
          try_eval (py_iter sq) (\<lambda>steps.
            run_steps ext
              \<lparr>ch_mgr = mgr, ch_id = ch, ch_session_dir = session_dir,
               ch_exp_desc = exp_desc\<rparr> (List.enumerate 1 steps))))"

section \<open>main: loading a plan, connecting, running, disconnecting, saving\<close>

text \<open>
  Lines 256 to 258 (and 316 to 318): what \<^verbatim>\<open>main\<close> does with the document
  \<^verbatim>\<open>json.load\<close> returned before the plan is assigned to a channel. The steps are
  changed in place, so the plan holds the changed steps afterwards.
\<close>

definition load_plan :: "pyval \<Rightarrow> pyval \<Rightarrow> error + pyval" where
  "load_plan conc plan_data =
     bind_err (py_getitem plan_data ''sequence'') (\<lambda>sq.
     bind_err (py_iter sq) (\<lambda>steps.
     bind_err (map_err (\<lambda>step. py_setitem step ''concentration'' conc) steps) (\<lambda>steps'.
     bind_err (py_kwargs plan_data) (\<lambda>d.
       Inr (case sq of
              PList xs \<Rightarrow> PDict (AList.update ''sequence'' (PList steps') d)
            | _ \<Rightarrow> plan_data)))))"

text \<open>\<^verbatim>\<open>connect_channels\<close> (lines 80 to 88); \<open>n\<close> is \<^verbatim>\<open>len(available)\<close>. The manager
  created for the \<open>i\<close>-th entry of \<^verbatim>\<open>channels\<close> is manager \<open>i\<close>.\<close>

fun connect_loop ::
  "'w externals \<Rightarrow> nat \<Rightarrow> (nat \<times> int) list \<Rightarrow> (int \<times> nat) list \<Rightarrow> 'w state \<Rightarrow>
   (error + (int \<times> nat) list) \<times> 'w state" where
  "connect_loop ext n [] managers s = (Inr managers, s)"
| "connect_loop ext n ((i, ch) # rest) managers s =
     (case try_eval (list_index n ch) (\<lambda>j.
             andthen (emit (Connect i ch)) (call_ext (ext_connect ext i ch))) s of
        (Some e, s') \<Rightarrow> (Inl e, s')
      | (None, s') \<Rightarrow> connect_loop ext n rest (AList.update ch i managers) s')"

definition connect_channels ::
  "'w externals \<Rightarrow> int list \<Rightarrow> nat \<Rightarrow> 'w state \<Rightarrow>
   (error + (int \<times> nat) list) \<times> 'w state" where
  "connect_channels ext channels n = connect_loop ext n (List.enumerate 0 channels) []"

text \<open>
  \<^verbatim>\<open>await asyncio.gather(*tasks)\<close>, without \<^verbatim>\<open>return_exceptions\<close>: the first exception
  of a task is raised in the caller. The tasks are taken in the schedule in which no
  awaited call suspends: each task runs to its end or to its own exception, one after
  the other, and the caller resumes after the last. (Under another schedule the events
  of the tasks interleave; what the caller does after \<^verbatim>\<open>gather\<close> is the same.)
\<close>

fun gather :: "'w proc list \<Rightarrow> 'w proc" where
  "gather [] s = (None, s)"
| "gather (t # ts) s =
     (case t s of (r, s') \<Rightarrow>
        (case gather ts s' of (r', s'') \<Rightarrow>
           ((case r of Some e \<Rightarrow> Some e | None \<Rightarrow> r'), s'')))"

text \<open>An entry of \<^verbatim>\<open>assignments\<close> (lines 259 and 347).\<close>

record assignment =
  a_ch :: int
  a_plan :: pyval
  a_exp_desc :: string

text \<open>\<^verbatim>\<open>mgr.disconnect()\<close> and \<^verbatim>\<open>save_session_file(...)\<close>: the attempt is recorded
  in the trace, then the collaborator acts and may raise.\<close>

definition disconnect :: "'w externals \<Rightarrow> nat \<Rightarrow> 'w proc" where
  "disconnect ext mgr = andthen (emit (Disconnect mgr)) (call_ext (ext_disconnect ext mgr))"

definition save_session :: "'w externals \<Rightarrow> 'w proc" where
  "save_session ext = andthen (emit SaveSession) (call_ext (ext_save ext))"

text \<open>The channel tasks of line 364 to 371.\<close>

definition run_tasks ::
  "'w externals \<Rightarrow> string \<Rightarrow> (int \<times> nat) list \<Rightarrow> assignment list \<Rightarrow> 'w proc" where
  "run_tasks ext session_dir managers assignments =
     gather (map (\<lambda>a. run_channel ext (a_ch a) (a_plan a) session_dir managers
                         (a_exp_desc a)) assignments)"

text \<open>Steps 6 and 7 of \<^verbatim>\<open>main\<close> (lines 362 to 377).\<close>

definition main_run ::
  "'w externals \<Rightarrow> int list \<Rightarrow> nat \<Rightarrow> string \<Rightarrow> assignment list \<Rightarrow> 'w proc" where
  "main_run ext channels n session_dir assignments s =
     (case connect_channels ext channels n s of
        (Inl e, s1) \<Rightarrow> (Some e, s1)
      | (Inr managers, s1) \<Rightarrow>
          andthen (run_tasks ext session_dir managers assignments)
         (andthen (gather (map (\<lambda>cm. disconnect ext (snd cm)) managers))
                  (save_session ext)) s1)"

text \<open>The collaborators \<^verbatim>\<open>run_one\<close> calls never raise.\<close>

definition runs_succeed :: "'w externals \<Rightarrow> bool" where
  "runs_succeed ext \<longleftrightarrow>
     (\<forall>c w. fst (ext_files ext c w) = None) \<and>
     (\<forall>c w. fst (ext_measure ext c w) = None) \<and>
     (\<forall>c kw w. fst (ext_log ext c kw w) = None)"

text \<open>The events of step 7 of \<^verbatim>\<open>main\<close>.\<close>

fun is_cleanup :: "event \<Rightarrow> bool" where
  "is_cleanup (Disconnect mgr) = True"
| "is_cleanup SaveSession = True"
| "is_cleanup _ = False"

text \<open>The run_one calls in a trace, in order.\<close>

fun runs_of :: "event list \<Rightarrow> run_call list" where
  "runs_of [] = []"
| "runs_of (RunOne c # evs) = c # runs_of evs"
| "runs_of (ev # evs) = runs_of evs"

section \<open>The sweep branch on a store\<close>

text \<open>
  Whether expanding a step changes the step is a question about aliasing, which the
  value model above cannot ask: there a copy is equal to its original. Here the
  objects of the program live in a store. A value is an immediate or the address of
  an object; a dict, a list or a level object of the instrument library is an object;
  \<^verbatim>\<open>x.copy()\<close>, \<^verbatim>\<open>dict(x)\<close>, a comprehension and a constructor allocate a new object,
  and \<^verbatim>\<open>x[k] = v\<close> overwrites the object \<open>x\<close> refers to, for everyone who holds its
  address. The store is the list of the objects allocated so far, an address is a
  position in it, and allocation appends.
\<close>

type_synonym addr = nat

datatype hval =
    HNone
  | HBool bool
  | HInt int
  | HFloat "64 word"
  | HStr string
  | HRef addr

datatype hobj =
    HDict "(string \<times> hval) list"
  | HList "hval list"
  | HLevel "(string \<times> hval) list"

type_synonym heap = "hobj list"

text \<open>A computation on the store returns a value or raises, and leaves a store.\<close>

type_synonym 'a hcomp = "heap \<Rightarrow> (error + 'a) \<times> heap"

definition hreturn :: "'a \<Rightarrow> 'a hcomp" where
  "hreturn x h = (Inr x, h)"

definition hraise :: "error \<Rightarrow> 'a hcomp" where
  "hraise e h = (Inl e, h)"

definition hbind :: "'a hcomp \<Rightarrow> ('a \<Rightarrow> 'b hcomp) \<Rightarrow> 'b hcomp" where
  "hbind m k h = (case m h of (Inl e, h') \<Rightarrow> (Inl e, h') | (Inr x, h') \<Rightarrow> k x h')"

text \<open>An expression that only reads the store.\<close>

definition hread :: "(heap \<Rightarrow> error + 'a) \<Rightarrow> 'a hcomp" where
  "hread f h = (f h, h)"

definition h_alloc :: "hobj \<Rightarrow> addr hcomp" where
  "h_alloc ob h = (Inr (length h), h @ [ob])"

text \<open>A list comprehension and a for loop whose body works on the store.\<close>

fun hmap :: "('a \<Rightarrow> 'b hcomp) \<Rightarrow> 'a list \<Rightarrow> 'b list hcomp" where
  "hmap f [] = hreturn []"
| "hmap f (x # xs) = hbind (f x) (\<lambda>y. hbind (hmap f xs) (\<lambda>ys. hreturn (y # ys)))"

fun hfor :: "('a \<Rightarrow> unit hcomp) \<Rightarrow> 'a list \<Rightarrow> unit hcomp" where
  "hfor body [] = hreturn ()"
| "hfor body (x # xs) = hbind (body x) (\<lambda>u. hfor body xs)"

text \<open>The object a value refers to. An address outside the store does not occur in
  a store built by the program.\<close>

definition st_obj :: "heap \<Rightarrow> hval \<Rightarrow> hobj option" where
  "st_obj h v = (case v of HRef a \<Rightarrow> (if a < length h then Some (h ! a) else None) | _ \<Rightarrow> None)"

text \<open>The dict behind \<^verbatim>\<open>obj[key]\<close>, \<^verbatim>\<open>obj.items()\<close> and \<^verbatim>\<open>**obj\<close>.\<close>

definition st_dict :: "heap \<Rightarrow> hval \<Rightarrow> error + (string \<times> hval) list" where
  "st_dict h v = (case st_obj h v of Some (HDict d) \<Rightarrow> Inr d | _ \<Rightarrow> Inl TypeError)"

definition st_getitem :: "hval \<Rightarrow> string \<Rightarrow> heap \<Rightarrow> error + hval" where
  "st_getitem v k h =
     bind_err (st_dict h v) (\<lambda>d.
       case map_of d k of None \<Rightarrow> Inl (KeyError (PStr k)) | Some x \<Rightarrow> Inr x)"

text \<open>\<^verbatim>\<open>step.get(key)\<close>, and its truth value.\<close>

definition st_truthy :: "heap \<Rightarrow> hval \<Rightarrow> bool" where
  "st_truthy h v =
     (case v of
        HNone \<Rightarrow> False
      | HBool b \<Rightarrow> b
      | HInt i \<Rightarrow> i \<noteq> 0
      | HFloat w \<Rightarrow> w \<noteq> 0 \<and> w \<noteq> 0x8000000000000000
      | HStr s \<Rightarrow> s \<noteq> []
      | HRef a \<Rightarrow>
          (case st_obj h v of
             Some (HDict d) \<Rightarrow> d \<noteq> []
           | Some (HList xs) \<Rightarrow> xs \<noteq> []
           | _ \<Rightarrow> True))"

definition st_flag :: "hval \<Rightarrow> string \<Rightarrow> heap \<Rightarrow> error + bool" where
  "st_flag step k h =
     bind_err (st_dict h step) (\<lambda>d.
       Inr (st_truthy h (case map_of d k of None \<Rightarrow> HNone | Some x \<Rightarrow> x)))"

definition st_iter :: "hval \<Rightarrow> heap \<Rightarrow> error + hval list" where
  "st_iter v h =
     (case v of
        HStr s \<Rightarrow> Inr (map (\<lambda>c. HStr [c]) s)
      | _ \<Rightarrow>
          (case st_obj h v of
             Some (HList xs) \<Rightarrow> Inr xs
           | Some (HDict d) \<Rightarrow> Inr (map (\<lambda>kv. HStr (fst kv)) d)
           | _ \<Rightarrow> Inl TypeError))"

text \<open>\<^verbatim>\<open>obj.copy()\<close>: a new object with the same content.\<close>

definition st_copy :: "hval \<Rightarrow> hval hcomp" where
  "st_copy v h =
     (case st_obj h v of
        Some (HDict d) \<Rightarrow> hbind (h_alloc (HDict d)) (\<lambda>a. hreturn (HRef a)) h
      | Some (HList xs) \<Rightarrow> hbind (h_alloc (HList xs)) (\<lambda>a. hreturn (HRef a)) h
      | _ \<Rightarrow> (Inl AttributeError, h))"

text \<open>\<^verbatim>\<open>obj[key] = x\<close> with a string key: the dict \<open>obj\<close> refers to is overwritten in
  place.\<close>

definition st_setitem :: "hval \<Rightarrow> string \<Rightarrow> hval \<Rightarrow> unit hcomp" where
  "st_setitem v k x h =
     (case v of
        HRef a \<Rightarrow>
          (case st_obj h v of
             Some (HDict d) \<Rightarrow> (Inr (), h[a := HDict (AList.update k x d)])
           | _ \<Rightarrow> (Inl TypeError, h))
      | _ \<Rightarrow> (Inl TypeError, h))"

text \<open>\<^verbatim>\<open>obj.pop(key)\<close>: the key is taken out of the dict in place.\<close>

definition st_pop :: "hval \<Rightarrow> string \<Rightarrow> hval hcomp" where
  "st_pop v k h =
     (case v of
        HRef a \<Rightarrow>
          (case st_obj h v of
             Some (HDict d) \<Rightarrow>
               (case map_of d k of
                  None \<Rightarrow> (Inl (KeyError (PStr k)), h)
                | Some x \<Rightarrow> (Inr x, h[a := HDict (AList.delete k d)]))
           | _ \<Rightarrow> (Inl AttributeError, h))
      | _ \<Rightarrow> (Inl AttributeError, h))"

text \<open>\<^verbatim>\<open>raw[lvl_idx]\<close> on the list \<open>raw\<close> refers to.\<close>

definition st_index :: "hval \<Rightarrow> hval \<Rightarrow> heap \<Rightarrow> error + hval" where
  "st_index raw idx h =
     (case st_obj h raw of
        Some (HList xs) \<Rightarrow>
          bind_err (case idx of
                      HInt i \<Rightarrow> list_index (length xs) i
                    | HBool b \<Rightarrow> list_index (length xs) (if b then 1 else 0)
                    | _ \<Rightarrow> Inl TypeError)
            (\<lambda>j. Inr (xs ! j))
      | _ \<Rightarrow> Inl TypeError)"

text \<open>
  What \<^verbatim>\<open>run.py\<close> calls and does not contain, as far as the store is concerned. The
  constructor of a level may raise; \<^verbatim>\<open>run_one\<close> may raise in its files, in the
  measurement and in the log. None of them writes to an object it is given: the
  instrument library receives the parameters as keyword arguments, and \<^verbatim>\<open>json.dump\<close>
  only reads.
\<close>

record store_ext =
  se_level :: "(string \<times> hval) list \<Rightarrow> string option"
  se_files :: "heap \<Rightarrow> hval \<Rightarrow> string option"
  se_measure :: "heap \<Rightarrow> hval \<Rightarrow> string option"
  se_log :: "heap \<Rightarrow> hval \<Rightarrow> string option"

definition st_external :: "(heap \<Rightarrow> string option) \<Rightarrow> unit hcomp" where
  "st_external f h = (case f h of Some msg \<Rightarrow> (Inl (External msg), h) | None \<Rightarrow> (Inr (), h))"

text \<open>\<^verbatim>\<open>pspymethods.multi_step_amperometry_level(**l)\<close>: a new level object.\<close>

definition st_level :: "store_ext \<Rightarrow> hval \<Rightarrow> hval hcomp" where
  "st_level ext l =
     hbind (hread (\<lambda>h. st_dict h l)) (\<lambda>kw.
       case se_level ext kw of
         Some msg \<Rightarrow> hraise (External msg)
       | None \<Rightarrow> hbind (h_alloc (HLevel kw)) (\<lambda>a. hreturn (HRef a)))"

text \<open>
  \<^verbatim>\<open>run_one\<close> (lines 91 to 135) on the store: after the measurement, for MSA,
  \<^verbatim>\<open>save_params = params.copy()\<close> and
  \<^verbatim>\<open>save_params["levels"] = save_params.pop("_raw_levels")\<close>.
\<close>

definition run_one_store :: "store_ext \<Rightarrow> string \<Rightarrow> hval \<Rightarrow> unit hcomp" where
  "run_one_store ext method_name params =
     hbind (st_external (\<lambda>h. se_files ext h params)) (\<lambda>u.
     hbind (if method_name \<in> set METHOD_FUNC_MAP then hreturn ()
            else hraise (KeyError (PStr method_name))) (\<lambda>u.
     hbind (hread (\<lambda>h. st_dict h params)) (\<lambda>kw.
     hbind (st_external (\<lambda>h. se_measure ext h params)) (\<lambda>u.
     hbind (if method_name = ''MSA'' \<and> map_of kw ''_raw_levels'' \<noteq> None then
              hbind (h_alloc (HDict kw)) (\<lambda>c.
              hbind (st_pop (HRef c) ''_raw_levels'') (\<lambda>raw.
                st_setitem (HRef c) ''levels'' raw))
            else hreturn ()) (\<lambda>u.
       st_external (\<lambda>h. se_log ext h params))))))"

text \<open>The loops over the repeats (lines 181, 190). The title is a string and does
  not touch the store; forming it raises when \<open>m\<close> is not a string, and in the MSA
  sweep when \<^verbatim>\<open>lvl_idx + 1\<close> is not a number. \<open>st_title\<close> gives the method name
  \<^verbatim>\<open>run_one\<close> is called with.\<close>

definition st_range1 :: "hval \<Rightarrow> error + int list" where
  "st_range1 reps =
     (case reps of
        HInt n \<Rightarrow> Inr [1..n]
      | HBool b \<Rightarrow> Inr [1..(if b then 1 else 0)]
      | _ \<Rightarrow> Inl TypeError)"

definition st_title :: "hval \<Rightarrow> hval option \<Rightarrow> error + string" where
  "st_title m lvl_idx =
     (case m of
        HStr s \<Rightarrow>
          (case lvl_idx of
             None \<Rightarrow> Inr s
           | Some (HInt i) \<Rightarrow> Inr s
           | Some (HBool b) \<Rightarrow> Inr s
           | Some (HFloat w) \<Rightarrow> Inl Unmodelled
           | Some _ \<Rightarrow> Inl TypeError)
      | _ \<Rightarrow> Inl AttributeError)"

definition run_repeats_store ::
  "store_ext \<Rightarrow> hval \<Rightarrow> hval \<Rightarrow> hval \<Rightarrow> hval option \<Rightarrow> unit hcomp" where
  "run_repeats_store ext m params reps lvl_idx =
     hbind (hread (\<lambda>h. st_range1 reps)) (\<lambda>ns.
       hfor (\<lambda>i. hbind (hread (\<lambda>h. st_title m lvl_idx)) (\<lambda>method_name.
                    run_one_store ext method_name params)) ns)"

text \<open>Lines 171 and 173: \<^verbatim>\<open>if step.get(flag): raw[lvl_idx][key] = val\<close>.\<close>

definition st_sweep_field ::
  "hval \<Rightarrow> string \<Rightarrow> hval \<Rightarrow> hval \<Rightarrow> string \<Rightarrow> hval \<Rightarrow> unit hcomp" where
  "st_sweep_field step flag raw lvl_idx key val =
     hbind (hread (st_flag step flag)) (\<lambda>b.
       if b then hbind (hread (st_index raw lvl_idx)) (\<lambda>lvl. st_setitem lvl key val)
       else hreturn ())"

text \<open>Line 169: \<^verbatim>\<open>raw = [lvl.copy() for lvl in base["levels"]]\<close>.\<close>

definition st_copy_levels :: "hval \<Rightarrow> hval hcomp" where
  "st_copy_levels base =
     hbind (hread (st_getitem base ''levels'')) (\<lambda>lv.
     hbind (hread (st_iter lv)) (\<lambda>lvls.
     hbind (hmap st_copy lvls) (\<lambda>copies.
     hbind (h_alloc (HList copies)) (\<lambda>r. hreturn (HRef r)))))"

text \<open>Lines 169 to 173: the raw levels of one swept value.\<close>

definition st_raw_levels :: "hval \<Rightarrow> hval \<Rightarrow> hval \<Rightarrow> hval \<Rightarrow> hval hcomp" where
  "st_raw_levels step base lvl_idx val =
     hbind (st_copy_levels base) (\<lambda>raw.
     hbind (st_sweep_field step ''sweep_potential'' raw lvl_idx ''level'' val) (\<lambda>u.
     hbind (st_sweep_field step ''sweep_duration'' raw lvl_idx ''duration'' val) (\<lambda>u.
       hreturn raw)))"

text \<open>Lines 169 to 180: the parameters of one swept value of an MSA level sweep.\<close>

definition msa_sweep_params_store ::
  "store_ext \<Rightarrow> hval \<Rightarrow> hval \<Rightarrow> hval \<Rightarrow> hval \<Rightarrow> hval hcomp" where
  "msa_sweep_params_store ext step base lvl_idx val =
     hbind (st_raw_levels step base lvl_idx val) (\<lambda>raw.
     hbind (hread (\<lambda>h. st_dict h base)) (\<lambda>bd.
     hbind (h_alloc (HDict (filter (\<lambda>kv. fst kv \<noteq> ''levels'') bd))) (\<lambda>p.
     hbind (st_setitem (HRef p) ''_raw_levels'' raw) (\<lambda>u.
     hbind (hread (st_iter raw)) (\<lambda>ls.
     hbind (hmap (st_level ext) ls) (\<lambda>objs.
     hbind (h_alloc (HList objs)) (\<lambda>lo.
     hbind (st_setitem (HRef p) ''levels'' (HRef lo)) (\<lambda>u.
       hreturn (HRef p)))))))))"

text \<open>Lines 188 and 189: \<^verbatim>\<open>params = dict(base); params[sweep_param] = val\<close>. As in
  the value model, \<^verbatim>\<open>dict\<close> of a non-empty sequence and a key that is not a string
  are left out.\<close>

definition sweep_params_store :: "hval \<Rightarrow> hval \<Rightarrow> hval \<Rightarrow> hval hcomp" where
  "sweep_params_store base sweep_param val =
     hbind (hread (\<lambda>h. case base of
                         HStr [] \<Rightarrow> Inr []
                       | HStr (c # cs) \<Rightarrow> Inl Unmodelled
                       | _ \<Rightarrow> (case st_obj h base of
                                 Some (HDict d) \<Rightarrow> Inr d
                               | Some (HList []) \<Rightarrow> Inr []
                               | Some (HList (x # xs)) \<Rightarrow> Inl Unmodelled
                               | _ \<Rightarrow> Inl TypeError))) (\<lambda>bd.
     hbind (h_alloc (HDict bd)) (\<lambda>p.
     hbind (case sweep_param of
              HStr k \<Rightarrow> st_setitem (HRef p) k val
            | HRef a \<Rightarrow> hraise TypeError
            | _ \<Rightarrow> hraise Unmodelled) (\<lambda>u.
       hreturn (HRef p))))"

text \<open>
  The branch \<^verbatim>\<open>elif typ == "sweep"\<close> (lines 164 to 193) for the step at \<open>step\<close>, with
  the method \<open>m\<close> and the repeat count \<open>reps\<close> read from it before.
\<close>

definition sweep_store :: "store_ext \<Rightarrow> hval \<Rightarrow> hval \<Rightarrow> hval \<Rightarrow> unit hcomp" where
  "sweep_store ext step m reps =
     hbind (hread (st_getitem step ''base_params'')) (\<lambda>base.
     hbind (if m = HStr ''MSA'' then hread (st_flag step ''modify_levels'')
            else hreturn False) (\<lambda>msa.
       if msa then
         hbind (hread (st_getitem step ''level_index'')) (\<lambda>lvl_idx.
         hbind (hread (st_getitem step ''sweep_values'')) (\<lambda>sv.
         hbind (hread (st_iter sv)) (\<lambda>vals.
           hfor (\<lambda>val.
             hbind (msa_sweep_params_store ext step base lvl_idx val) (\<lambda>params.
               run_repeats_store ext m params reps (Some lvl_idx))) vals)))
       else
         hbind (hread (st_getitem step ''sweep_param'')) (\<lambda>sweep_param.
         hbind (hread (st_getitem step ''sweep_values'')) (\<lambda>sv.
         hbind (hread (st_iter sv)) (\<lambda>vals.
           hfor (\<lambda>val.
             hbind (sweep_params_store base sweep_param val) (\<lambda>params.
               run_repeats_store ext m params reps None)) vals)))))"

text \<open>\<open>grows n h h'\<close>: from \<open>h\<close> to \<open>h'\<close> the store did not shrink and its first \<open>n\<close>
  objects did not change. \<open>frame n m Q\<close>: the computation \<open>m\<close>, started in a store of
  at least \<open>n\<close> objects, leaves the first \<open>n\<close> as they are, and a value it returns
  satisfies \<open>Q\<close>.\<close>

definition grows :: "nat \<Rightarrow> heap \<Rightarrow> heap \<Rightarrow> bool" where
  "grows n h h' \<longleftrightarrow> n \<le> length h \<and> length h \<le> length h' \<and> take n h' = take n h"

definition frame :: "nat \<Rightarrow> 'a hcomp \<Rightarrow> ('a \<Rightarrow> bool) \<Rightarrow> bool" where
  "frame n m Q \<longleftrightarrow>
     (\<forall>h. n \<le> length h \<longrightarrow>
        grows n h (snd (m h)) \<and> (\<forall>x. fst (m h) = Inr x \<longrightarrow> Q x))"

section \<open>The swept level, in the words of the specification\<close>

text \<open>
  The specification (4.2, step 3) says what a swept value \<open>v\<close> does to the level it
  targets: if \<open>sweep_potential\<close> is set, its \<open>level\<close> becomes \<open>v\<close>; if \<open>sweep_duration\<close> is
  set, its \<open>duration\<close> becomes \<open>v\<close>; both may be set. \<open>swept_level\<close> is that level; the
  claims compare what the code builds with it.
\<close>

definition swept_level :: "bool \<Rightarrow> bool \<Rightarrow> pyval \<Rightarrow> pydict \<Rightarrow> pydict" where
  "swept_level pot dur v lvl =
     (if dur then AList.update ''duration'' v else id)
       ((if pot then AList.update ''level'' v else id) lvl)"

section \<open>Example inputs\<close>

text \<open>Collaborators that never fail, on a world without content. The two floats
  are \<open>0.05\<close> and \<open>0.1\<close>.\<close>

definition fmt_example :: "pyval \<Rightarrow> string" where
  "fmt_example v =
     (if v = PFloat 0x3FA999999999999A then ''0.05''
      else if v = PFloat 0x3FB999999999999A then ''0.1'' else ''?'')"

definition ext_ok :: "unit externals" where
  "ext_ok = \<lparr>ext_format = fmt_example, ext_level = (\<lambda>kw. Inr (PObj kw)),
     ext_connect = (\<lambda>i ch w. (None, w)), ext_files = (\<lambda>c w. (None, w)),
     ext_measure = (\<lambda>c w. (None, w)), ext_log = (\<lambda>c kw w. (None, w)),
     ext_disconnect = (\<lambda>i w. (None, w)), ext_save = (\<lambda>w. (None, w))\<rparr>"

definition chan0 :: chan where
  "chan0 = \<lparr>ch_mgr = 0, ch_id = 0, ch_session_dir = ''sessions/demo'', ch_exp_desc = ''exp''\<rparr>"

definition state0 :: "unit state" where
  "state0 = \<lparr>trace = [], world = ()\<rparr>"

definition step_cv :: pydict where
  "step_cv = [(''method'', PStr ''CV''), (''type'', PStr ''single''),
      (''params'', PDict [(''n_scans'', PInt 2)]), (''repeats'', PInt 3)]"

definition step_lsv_sweep :: pydict where
  "step_lsv_sweep = [(''method'', PStr ''LSV''), (''type'', PStr ''sweep''),
      (''sweep_param'', PStr ''scanrate''),
      (''base_params'', PDict [(''begin_potential'', PInt 0), (''scanrate'', PInt 1)]),
      (''sweep_values'', PList [PFloat 0x3FA999999999999A, PFloat 0x3FB999999999999A]),
      (''repeats'', PInt 1)]"


definition step_msa_neg :: pydict where
  "step_msa_neg = [(''method'', PStr ''MSA''), (''type'', PStr ''sweep''),
      (''base_params'', PDict [(''n_cycles'', PInt 1),
          (''levels'', PList [PDict [(''level'', PInt 0), (''duration'', PInt 5)],
                              PDict [(''level'', PInt 1), (''duration'', PInt 6)]])]),
      (''modify_levels'', PBool True), (''level_index'', PInt (- 1)),
      (''sweep_potential'', PBool True), (''sweep_duration'', PBool False),
      (''sweep_values'', PList [PInt 2]), (''repeats'', PInt 1)]"

definition step_msa_out :: pydict where
  "step_msa_out = [(''method'', PStr ''MSA''), (''type'', PStr ''sweep''),
      (''base_params'', PDict [(''n_cycles'', PInt 1),
          (''levels'', PList [PDict [(''level'', PInt 0), (''duration'', PInt 5)],
                              PDict [(''level'', PInt 1), (''duration'', PInt 6)]])]),
      (''modify_levels'', PBool True), (''level_index'', PInt 2),
      (''sweep_potential'', PBool True), (''sweep_duration'', PBool False),
      (''sweep_values'', PList [PInt 2]), (''repeats'', PInt 1)]"

definition step_cv0 :: pydict where
  "step_cv0 = [(''method'', PStr ''CV''), (''type'', PStr ''single''),
      (''params'', PDict [(''n_scans'', PInt 2)]), (''repeats'', PInt 0)]"

definition plan_bogus :: pydict where
  "plan_bogus = [(''name'', PStr ''demo''),
      (''sequence'', PList [PDict [(''method'', PStr ''XYZ''), (''type'', PStr ''bogus'')]])]"

definition plan_out_then_cv :: pyval where
  "plan_out_then_cv = PDict [(''name'', PStr ''demo''),
      (''sequence'', PList [PDict step_msa_out, PDict step_cv])]"

definition step_cv_untyped :: pydict where
  "step_cv_untyped = [(''method'', PStr ''CV''),
      (''params'', PDict [(''n_scans'', PInt 2)]), (''repeats'', PInt 2)]"

definition step_bogus :: pydict where
  "step_bogus = [(''method'', PStr ''CV''), (''type'', PStr ''bogus'')]"

definition plan_bogus_then_cv :: pyval where
  "plan_bogus_then_cv = PDict [(''sequence'', PList [PDict step_bogus, PDict step_cv])]"

definition ext_fail0 :: "unit externals" where
  "ext_fail0 = ext_ok\<lparr>ext_measure :=
     (\<lambda>c w. (if rc_ch c = 0 then Some ''device error'' else None, w))\<rparr>"

definition plan_cv1 :: pyval where
  "plan_cv1 = PDict [(''sequence'', PList [PDict [(''method'', PStr ''CV''),
      (''type'', PStr ''single''), (''params'', PDict [(''n_scans'', PInt 2)])]])]"

definition two_assignments :: "assignment list" where
  "two_assignments =
     [\<lparr>a_ch = 0, a_plan = plan_cv1, a_exp_desc = ''exp''\<rparr>,
      \<lparr>a_ch = 1, a_plan = plan_cv1, a_exp_desc = ''exp''\<rparr>]"

text \<open>The state after both channels are connected, and after both tasks ran.\<close>

definition s_conn :: "unit state" where
  "s_conn = \<lparr>trace = [Connect 0 0, Connect 1 1], world = ()\<rparr>"

definition s_ran :: "unit state" where
  "s_ran = \<lparr>trace =
     [Connect 0 0, Connect 1 1,
      RunOne
       \<lparr>rc_mgr = 0, rc_ch = 0, rc_method = ''CV'',
          rc_params = PDict [(''n_scans'', PInt 2)],
          rc_title = ''cv_step1_run1'', rc_conc = PNone,
          rc_session_dir = ''sessions/demo'', rc_exp_desc = ''exp''\<rparr>,
      RunOne
       \<lparr>rc_mgr = 1, rc_ch = 1, rc_method = ''CV'',
          rc_params = PDict [(''n_scans'', PInt 2)],
          rc_title = ''cv_step1_run1'', rc_conc = PNone,
          rc_session_dir = ''sessions/demo'', rc_exp_desc = ''exp''\<rparr>],
     world = ()\<rparr>"

text \<open>A store that holds the MSA level sweep \<open>step_msa_sweep\<close> with one swept value:
  the two levels, the list of levels, \<open>base_params\<close>, \<open>sweep_values\<close> and the step.\<close>

definition store_ok :: store_ext where
  "store_ok = \<lparr>se_level = (\<lambda>kw. None), se_files = (\<lambda>h p. None),
     se_measure = (\<lambda>h p. None), se_log = (\<lambda>h p. None)\<rparr>"

definition heap_msa :: heap where
  "heap_msa =
     [HDict [(''level'', HInt 0), (''duration'', HInt 5)],
      HDict [(''level'', HInt 1), (''duration'', HInt 6)],
      HList [HRef 0, HRef 1],
      HDict [(''n_cycles'', HInt 1), (''levels'', HRef 2)],
      HList [HInt 2],
      HDict [(''method'', HStr ''MSA''), (''type'', HStr ''sweep''),
             (''base_params'', HRef 3), (''modify_levels'', HBool True),
             (''level_index'', HInt 1), (''sweep_potential'', HBool True),
             (''sweep_duration'', HBool False), (''sweep_values'', HRef 4),
             (''repeats'', HInt 1)]]"


section \<open>Basic facts about the statements\<close>

lemma for_each_append:
  "for_each body (xs @ ys) s =
     (case for_each body xs s of
        (None, s') \<Rightarrow> for_each body ys s'
      | (Some e, s') \<Rightarrow> (Some e, s'))"
  by (induction xs arbitrary: s) (auto split: prod.splits option.splits)

lemma for_each_trace:
  assumes "\<And>x s. x \<in> set xs \<Longrightarrow>
             fst (body x s) = None \<and> trace (snd (body x s)) = trace s @ evs x"
  shows "fst (for_each body xs s) = None \<and>
         trace (snd (for_each body xs s)) = trace s @ concat (map evs xs)"
  using assms
proof (induction xs arbitrary: s)
  case Nil
  then show ?case by simp
next
  case (Cons x xs)
  obtain s' where b: "body x s = (None, s')" and t: "trace s' = trace s @ evs x"
    using Cons.prems [of x s] by (cases "body x s") auto
  have "fst (for_each body xs s') = None \<and>
        trace (snd (for_each body xs s')) = trace s' @ concat (map evs xs)"
    using Cons.IH [of s'] Cons.prems by simp
  then show ?case using b t by simp
qed

lemma for_each_nil_trace:
  assumes "\<And>x s. x \<in> set xs \<Longrightarrow> runs_of (trace (snd (body x s))) = runs_of (trace s)"
  shows "runs_of (trace (snd (for_each body xs s))) = runs_of (trace s)"
  using assms
proof (induction xs arbitrary: s)
  case Nil
  then show ?case by simp
next
  case (Cons x xs)
  show ?case
  proof (cases "body x s")
    case (Pair r s')
    have s': "runs_of (trace s') = runs_of (trace s)"
      using Cons.prems [of x s] Pair by simp
    show ?thesis
    proof (cases r)
      case None
      have "runs_of (trace (snd (for_each body xs s'))) = runs_of (trace s')"
        using Cons.IH [of s'] Cons.prems by simp
      then show ?thesis using Pair None s' by simp
    next
      case (Some e)
      then show ?thesis using Pair s' by simp
    qed
  qed
qed

lemma runs_of_append: "runs_of (xs @ ys) = runs_of xs @ runs_of ys"
  by (induction xs rule: runs_of.induct) auto

lemma runs_of_map_RunOne: "runs_of (map RunOne cs) = cs"
  by (induction cs) auto

lemma run_one_ok:
  assumes "runs_succeed ext" and "rc_method c \<in> set METHOD_FUNC_MAP"
    and "rc_params c = PDict kw"
  shows "fst (run_one ext c s) = None \<and> trace (snd (run_one ext c s)) = trace s @ [RunOne c]"
proof -
  obtain w1 where f: "ext_files ext c (world s) = (None, w1)"
    using assms(1) unfolding runs_succeed_def
    by (metis fst_conv surj_pair)
  obtain w2 where m: "ext_measure ext c w1 = (None, w2)"
    using assms(1) unfolding runs_succeed_def
    by (metis fst_conv surj_pair)
  obtain w3 where l: "ext_log ext c (save_params (rc_method c) kw) w2 = (None, w3)"
    using assms(1) unfolding runs_succeed_def
    by (metis fst_conv surj_pair)
  show ?thesis
    using f m l assms(2,3)
    by (simp add: run_one_def andthen_def emit_def call_ext_def try_eval_def)
qed

lemma length_concat_const:
  "(\<And>x. x \<in> set xs \<Longrightarrow> length (f x) = n) \<Longrightarrow> length (concat (map f xs)) = length xs * n"
  by (induction xs) auto

lemma run_repeats_ok:
  assumes "runs_succeed ext" and "m \<in> set METHOD_FUNC_MAP"
    and "\<And>i. title_of i = Inr (t i)"
  shows "fst (run_repeats ext c (PStr m) (PDict kw) conc (PInt r) title_of s) = None \<and>
         trace (snd (run_repeats ext c (PStr m) (PDict kw) conc (PInt r) title_of s)) =
           trace s @ map (\<lambda>i. RunOne (mk_call c (PStr m) (PDict kw) conc (t i))) [1..r]"
proof -
  let ?body = "\<lambda>i. try_eval (title_of i) (\<lambda>title.
          run_one ext (mk_call c (PStr m) (PDict kw) conc title))"
  have "fst (for_each ?body [1..r] s) = None \<and>
        trace (snd (for_each ?body [1..r] s)) =
          trace s @ concat (map (\<lambda>i. [RunOne (mk_call c (PStr m) (PDict kw) conc (t i))]) [1..r])"
  proof (rule for_each_trace)
    fix i s'
    show "fst (?body i s') = None \<and>
          trace (snd (?body i s')) = trace s' @ [RunOne (mk_call c (PStr m) (PDict kw) conc (t i))]"
      using run_one_ok [OF assms(1), of "mk_call c (PStr m) (PDict kw) conc (t i)" kw s'] assms(2,3)
      by (simp add: try_eval_def mk_call_def)
  qed
  then show ?thesis
    by (simp add: run_repeats_def try_eval_def)
qed

lemma single_runs:
  assumes "map_of d ''method'' = Some (PStr m)" and "m \<in> set METHOD_FUNC_MAP"
    and "py_get d ''type'' (PStr ''single'') = PStr ''single''"
    and "py_get d ''repeats'' (PInt 1) = PInt r"
    and "single_params ext (PStr m) d = Inr (PDict kw)"
    and "runs_succeed ext"
  shows "fst (run_step ext c idx (PDict d) s) = None \<and>
         trace (snd (run_step ext c idx (PDict d) s)) =
           trace s @ map (\<lambda>i. RunOne (mk_call c (PStr m) (PDict kw)
                                  (py_get d ''concentration'' PNone)
                                  (map lower_char m @ ''_step'' @ str_nat idx @ ''_run'' @ str_int i)))
                       [1..r]"
proof -
  have step: "run_step ext c idx (PDict d) s =
      run_repeats ext c (PStr m) (PDict kw) (py_get d ''concentration'' PNone) (PInt r)
        (single_title (PStr m) idx) s"
    using assms(1,3,4,5) by (simp add: run_step_def try_eval_def Let_def)
  have t: "\<And>i. single_title (PStr m) idx i =
      Inr (map lower_char m @ ''_step'' @ str_nat idx @ ''_run'' @ str_int i)"
    by (simp add: single_title_def)
  show ?thesis
    using run_repeats_ok [OF assms(6) assms(2) t, where c = c and kw = kw
        and conc = "py_get d ''concentration'' PNone" and r = r and s = s]
    unfolding step by simp
qed

lemma runs_succeed_ext_ok: "runs_succeed ext_ok"
  by (simp add: runs_succeed_def ext_ok_def)

lemma ext_ok_format: "ext_format ext_ok = fmt_example"
  by (simp add: ext_ok_def)

section \<open>The claims\<close>

text \<open>
  C7. A step of type single at position \<open>idx\<close> (counted from 1) with \<open>repeats = r\<close>
  makes exactly \<open>r\<close> runs, all with the same parameters (the step's \<open>params\<close>; for MSA
  the parameters built from them), numbered \<open>1\<close> to \<open>r\<close> in this order, with the titles
  \<open>{method}_step{idx}_run{i}\<close>, the method name in lower case as in the titles
  \<open>cv_step1_run1\<close> the specification gives. The runs are the calls of \<open>run_one\<close>; the
  method is one \<open>run_one\<close> knows and no run fails.
\<close>

theorem single_step_runs:
  assumes "map_of d ''method'' = Some (PStr m)" and "m \<in> set METHOD_FUNC_MAP"
    and "py_get d ''type'' (PStr ''single'') = PStr ''single''"
    and "py_get d ''repeats'' (PInt 1) = PInt r"
    and "single_params ext (PStr m) d = Inr (PDict kw)"
    and "runs_succeed ext"
  shows "fst (run_step ext c idx (PDict d) s) = None \<and>
         trace (snd (run_step ext c idx (PDict d) s)) =
           trace s @ map (\<lambda>i. RunOne (mk_call c (PStr m) (PDict kw)
                                  (py_get d ''concentration'' PNone)
                                  (map lower_char m @ ''_step'' @ str_nat idx @ ''_run'' @ str_int i)))
                       [1..r] \<and>
         length (trace (snd (run_step ext c idx (PDict d) s))) = length (trace s) + nat r \<and>
         (m \<noteq> ''MSA'' \<longrightarrow> map_of d ''params'' = Some (PDict kw))"
proof -
  have p: "m \<noteq> ''MSA'' \<longrightarrow> map_of d ''params'' = Some (PDict kw)"
    using assms(5) by (auto simp: single_params_def split: option.splits)
  show ?thesis
    using single_runs [OF assms, of c idx s] p by simp
qed

theorem single_step_runs_witness:
  "fst (run_step ext_ok chan0 1 (PDict step_cv) state0) = None \<and>
   map rc_title (runs_of (trace (snd (run_step ext_ok chan0 1 (PDict step_cv) state0)))) =
     [''cv_step1_run1'', ''cv_step1_run2'', ''cv_step1_run3''] \<and>
   map rc_params (runs_of (trace (snd (run_step ext_ok chan0 1 (PDict step_cv) state0)))) =
     replicate 3 (PDict [(''n_scans'', PInt 2)])"
  using single_step_runs [of step_cv "''CV''" 3 ext_ok "[(''n_scans'', PInt 2)]" chan0 1 state0]
  by (simp add: step_cv_def METHOD_FUNC_MAP_def py_get_def single_params_def
      runs_succeed_ext_ok state0_def mk_call_def lower_char_def str_nat.simps str_int_def
      upto_rec1 numeral_eq_Suc)

text \<open>
  C5. A sweep step of a method other than MSA with \<open>sweep_values = [v1..vn]\<close> and
  \<open>repeats = r\<close> makes exactly \<open>n * r\<close> runs, in the order \<open>(v1,1) ... (v1,r), (v2,1) ...
  (vn,r)\<close>; the parameters of a run are \<open>base_params\<close> with \<open>sweep_param\<close> set to the
  swept value, and its title is \<open>{method}_{sweep_param}{v}_run{i}\<close>, the method name in
  lower case as in the titles \<open>lsv_scanrate0.05_run1\<close> the specification gives. The
  method is one \<open>run_one\<close> knows and no run fails.
\<close>

theorem sweep_step_runs:
  assumes "map_of d ''method'' = Some (PStr m)" and "m \<in> set METHOD_FUNC_MAP" and "m \<noteq> ''MSA''"
    and "map_of d ''type'' = Some (PStr ''sweep'')"
    and "py_get d ''repeats'' (PInt 1) = PInt r"
    and "map_of d ''base_params'' = Some (PDict base)"
    and "map_of d ''sweep_param'' = Some (PStr sp)"
    and "map_of d ''sweep_values'' = Some (PList vs)"
    and "runs_succeed ext"
  shows "fst (run_step ext c idx (PDict d) s) = None \<and>
         trace (snd (run_step ext c idx (PDict d) s)) =
           trace s @ concat (map (\<lambda>v. map (\<lambda>i. RunOne (mk_call c (PStr m)
                                  (PDict (AList.update sp v base))
                                  (py_get d ''concentration'' PNone)
                                  (map lower_char m @ ''_'' @ sp @ py_str (ext_format ext) v
                                     @ ''_run'' @ str_int i)))
                       [1..r]) vs) \<and>
         length (trace (snd (run_step ext c idx (PDict d) s))) =
           length (trace s) + length vs * nat r"
proof -
  let ?conc = "py_get d ''concentration'' PNone"
  let ?body = "\<lambda>val. try_eval (sweep_params (PDict base) (PStr sp) val) (\<lambda>params.
                    run_repeats ext c (PStr m) params ?conc (PInt r)
                      (sweep_title (ext_format ext) (PStr m) (PStr sp) val))"
  let ?evs = "\<lambda>v. map (\<lambda>i. RunOne (mk_call c (PStr m)
                                  (PDict (AList.update sp v base)) ?conc
                                  (map lower_char m @ ''_'' @ sp @ py_str (ext_format ext) v
                                     @ ''_run'' @ str_int i))) [1..r]"
  have step: "run_step ext c idx (PDict d) s = for_each ?body vs s"
    using assms(1,3,4,5,6,7,8) by (simp add: run_step_def try_eval_def Let_def py_get_def)
  have res: "fst (for_each ?body vs s) = None \<and>
        trace (snd (for_each ?body vs s)) = trace s @ concat (map ?evs vs)"
  proof (rule for_each_trace)
    fix v s'
    have t: "\<And>i. sweep_title (ext_format ext) (PStr m) (PStr sp) v i =
      Inr (map lower_char m @ ''_'' @ sp @ py_str (ext_format ext) v @ ''_run'' @ str_int i)"
      by (simp add: sweep_title_def)
    show "fst (?body v s') = None \<and> trace (snd (?body v s')) = trace s' @ ?evs v"
      using run_repeats_ok [OF assms(9) assms(2) t, where c = c
          and kw = "AList.update sp v base" and conc = ?conc and r = r and s = s']
      by (simp add: try_eval_def sweep_params_def)
  qed
  have len: "length (concat (map ?evs vs)) = length vs * nat r"
    by (rule length_concat_const) simp
  show ?thesis
    unfolding step using res len by simp
qed


theorem sweep_step_runs_witness:
  "fst (run_step ext_ok chan0 2 (PDict step_lsv_sweep) state0) = None \<and>
   map rc_title (runs_of (trace (snd (run_step ext_ok chan0 2 (PDict step_lsv_sweep) state0)))) =
     [''lsv_scanrate0.05_run1'', ''lsv_scanrate0.1_run1'']"
  using sweep_step_runs [of step_lsv_sweep "''LSV''" 1
     "[(''begin_potential'', PInt 0), (''scanrate'', PInt 1)]" "''scanrate''"
     "[PFloat 0x3FA999999999999A, PFloat 0x3FB999999999999A]" ext_ok chan0 2 state0]
  by (simp add: step_lsv_sweep_def METHOD_FUNC_MAP_def py_get_def
      runs_succeed_ext_ok state0_def mk_call_def lower_char_def str_nat.simps str_int_def
      ext_ok_format fmt_example_def)

subsection \<open>Facts about the MSA level sweep\<close>


lemma map_err_copy_dicts: "map_err py_copy (map PDict lds) = Inr (map PDict lds)"
  by (induction lds) auto


lemma list_index_bound: "list_index n k = Inr j \<Longrightarrow> j < n"
  by (auto simp: list_index_def split: if_splits)

lemma set_level_field_at:
  assumes "list_index (length lds) k = Inr j"
  shows "set_level_field (map PDict lds) (PInt k) key v =
           Inr (map PDict (lds[j := AList.update key v (lds ! j)]))"
  using assms list_index_bound [OF assms]
  by (simp add: set_level_field_def map_update)

lemma msa_sweep_levels_at:
  assumes "map_of base ''levels'' = Some (PList (map PDict lds))"
    and "list_index (length lds) k = Inr j"
  shows "msa_sweep_levels d (PDict base) (PInt k) v =
           Inr (map PDict (lds[j := swept_level (truthy (py_get d ''sweep_potential'' PNone))
                                      (truthy (py_get d ''sweep_duration'' PNone)) v (lds ! j)]))"
proof -
  have j: "j < length lds" using list_index_bound [OF assms(2)] .
  have l2: "list_index (length (lds[j := x])) k = Inr j" for x
    using assms(2) by simp
  show ?thesis
    using assms(1) j
    by (simp add: msa_sweep_levels_def map_err_copy_dicts swept_level_def
        set_level_field_at [OF assms(2)] set_level_field_at [OF l2])
qed



lemma for_each_not_error:
  assumes "\<And>x s. x \<in> set xs \<Longrightarrow> fst (body x s) \<noteq> Some e"
  shows "fst (for_each body xs s) \<noteq> Some e"
  using assms
proof (induction xs arbitrary: s)
  case Nil
  then show ?case by simp
next
  case (Cons x xs)
  show ?case
  proof (cases "body x s")
    case (Pair r s')
    show ?thesis
    proof (cases r)
      case None
      then show ?thesis using Pair Cons.IH [of s'] Cons.prems by simp
    next
      case (Some e')
      then show ?thesis using Pair Cons.prems [of x s] by simp
    qed
  qed
qed

lemma call_ext_not_index: "fst (call_ext f s) \<noteq> Some IndexError"
  by (cases "f (world s)") (auto simp: call_ext_def)

lemma andthen_not_error:
  assumes "\<And>s. fst (p s) \<noteq> Some e" and "\<And>s. fst (q s) \<noteq> Some e"
  shows "fst (andthen p q s) \<noteq> Some e"
  using assms(1) [of s] assms(2)
  by (cases "p s") (auto simp: andthen_def split: option.splits)

lemma try_eval_not_error:
  assumes "r \<noteq> Inl e" and "\<And>x s. fst (k x s) \<noteq> Some e"
  shows "fst (try_eval r k s) \<noteq> Some e"
  using assms by (cases r) (auto simp: try_eval_def)

lemma py_kwargs_not_index: "py_kwargs p \<noteq> Inl IndexError"
  by (cases p) auto

lemma run_one_not_index: "fst (run_one ext c s) \<noteq> Some IndexError"
proof -
  have m: "fst (andthen (call_ext (ext_measure ext c))
                 (call_ext (ext_log ext c kw)) s') \<noteq> Some IndexError" for kw s'
    by (intro andthen_not_error call_ext_not_index)
  have t: "fst ((if rc_method c \<notin> set METHOD_FUNC_MAP then raise (KeyError (PStr (rc_method c)))
        else try_eval (py_kwargs (rc_params c)) (\<lambda>kw.
               andthen (call_ext (ext_measure ext c))
                       (call_ext (ext_log ext c (save_params (rc_method c) kw))))) s')
          \<noteq> Some IndexError" for s'
  proof (cases "rc_method c \<in> set METHOD_FUNC_MAP")
    case True
    have "fst (try_eval (py_kwargs (rc_params c)) (\<lambda>kw.
               andthen (call_ext (ext_measure ext c))
                       (call_ext (ext_log ext c (save_params (rc_method c) kw)))) s')
          \<noteq> Some IndexError"
      by (rule try_eval_not_error) (rule py_kwargs_not_index, rule m)
    then show ?thesis using True by simp
  next
    case False
    then show ?thesis by (simp add: raise_def)
  qed
  have e: "fst (emit ev s') \<noteq> Some IndexError" for ev and s' :: "'a state"
    by (simp add: emit_def)
  show ?thesis
    unfolding run_one_def
    by (intro andthen_not_error call_ext_not_index e t)
qed

lemma run_repeats_not_index:
  assumes "\<And>i. title_of i \<noteq> Inl IndexError"
  shows "fst (run_repeats ext c m params conc reps title_of s) \<noteq> Some IndexError"
proof (cases "py_range1 reps")
  case (Inl e)
  then show ?thesis
    by (cases reps) (auto simp: run_repeats_def try_eval_def)
next
  case (Inr ns)
  have "fst (for_each (\<lambda>i. try_eval (title_of i) (\<lambda>title.
          run_one ext (mk_call c m params conc title))) ns s) \<noteq> Some IndexError"
  proof (rule for_each_not_error)
    fix i s'
    show "fst (try_eval (title_of i) (\<lambda>title.
          run_one ext (mk_call c m params conc title)) s') \<noteq> Some IndexError"
      using assms [of i] run_one_not_index
      by (cases "title_of i") (auto simp: try_eval_def)
  qed
  then show ?thesis using Inr by (simp add: run_repeats_def try_eval_def)
qed

lemma map_err_make_level_not_index:
  "map_err (make_level ext) (map PDict lds) \<noteq> Inl IndexError"
  by (induction lds) (auto simp: make_level_def split: sum.splits)

lemma set_level_field_out:
  assumes "list_index (length raw) k = Inl IndexError"
  shows "set_level_field raw (PInt k) key v = Inl IndexError"
  using assms by (simp add: set_level_field_def)

lemma try_eval_Inr: "try_eval (Inr x) k = k x"
  by (rule ext) (simp add: try_eval_def)

lemma try_eval_Inl: "try_eval (Inl e) k = raise e"
  by (rule ext) (simp add: try_eval_def raise_def)




text \<open>
  C2 (as amended). The code has no error of its own for a bad \<open>level_index\<close>; what decides
  is Python's list indexing in \<^verbatim>\<open>raw[lvl_idx]\<close>. For an MSA level sweep with at least one
  swept value and at least one of \<open>sweep_potential\<close>, \<open>sweep_duration\<close> set, the step raises
  IndexError if and only if \<open>level_index \<ge> len(levels)\<close> or \<open>level_index < -len(levels)\<close>;
  a negative index \<open>-len(levels) \<le> k < 0\<close> raises nothing and selects the level
  \<open>len(levels) + k\<close>.
\<close>

theorem msa_sweep_index_error:
  assumes "map_of d ''method'' = Some (PStr ''MSA'')"
    and "map_of d ''type'' = Some (PStr ''sweep'')"
    and "truthy (py_get d ''modify_levels'' PNone)"
    and "map_of d ''base_params'' = Some (PDict base)"
    and "map_of base ''levels'' = Some (PList (map PDict lds))"
    and "map_of d ''level_index'' = Some (PInt k)"
    and "map_of d ''sweep_values'' = Some (PList (v # vs))"
    and "pot = truthy (py_get d ''sweep_potential'' PNone)"
    and "dur = truthy (py_get d ''sweep_duration'' PNone)"
    and "pot \<or> dur"
  shows "(fst (run_step ext c idx (PDict d) s) = Some IndexError \<longleftrightarrow>
            int (length lds) \<le> k \<or> k < - int (length lds)) \<and>
         (- int (length lds) \<le> k \<and> k < 0 \<longrightarrow>
            msa_sweep_levels d (PDict base) (PInt k) v =
              Inr (map PDict (lds[nat (int (length lds) + k) :=
                     swept_level pot dur v (lds ! nat (int (length lds) + k))])))"
proof -
  let ?n = "int (length lds)"
  let ?conc = "py_get d ''concentration'' PNone"
  let ?reps = "py_get d ''repeats'' (PInt 1)"
  let ?body = "\<lambda>val. try_eval (msa_sweep_params ext d (PDict base) (PInt k) val) (\<lambda>params.
                    run_repeats ext c (PStr ''MSA'') params ?conc ?reps
                      (msa_sweep_title (ext_format ext) (PStr ''MSA'') (PInt k) val))"
  have step: "run_step ext c idx (PDict d) s = for_each ?body (v # vs) s"
    using assms(1-4,6,7) by (simp add: run_step_def try_eval_def Let_def py_get_def)
  have title: "\<And>val i. msa_sweep_title (ext_format ext) (PStr ''MSA'') (PInt k) val i \<noteq> Inl IndexError"
    by (simp add: msa_sweep_title_def)
  show ?thesis
  proof (cases "?n \<le> k \<or> k < - ?n")
    case True
    then have out: "list_index (length lds) k = Inl IndexError"
      by (auto simp: list_index_def)
    have "msa_sweep_levels d (PDict base) (PInt k) v = Inl IndexError"
      using assms(5,8,9,10) out
      by (auto simp: msa_sweep_levels_def map_err_copy_dicts set_level_field_def)
    then have "msa_sweep_params ext d (PDict base) (PInt k) v = Inl IndexError"
      by (simp add: msa_sweep_params_def)
    then have "fst (for_each ?body (v # vs) s) = Some IndexError"
      by (simp add: try_eval_def)
    then show ?thesis using True step by auto
  next
    case False
    then obtain j where j: "list_index (length lds) k = Inr j"
      and jk: "k < 0 \<longrightarrow> j = nat (?n + k)"
      by (cases "0 \<le> k") (auto simp: list_index_def)
    have "fst (for_each ?body (v # vs) s) \<noteq> Some IndexError"
    proof (rule for_each_not_error)
      fix val s'
      let ?raw = "lds[j := swept_level pot dur val (lds ! j)]"
      have lv: "msa_sweep_levels d (PDict base) (PInt k) val = Inr (map PDict ?raw)"
        using msa_sweep_levels_at [OF assms(5) j, of d val] assms(8,9) by simp
      have "msa_sweep_params ext d (PDict base) (PInt k) val \<noteq> Inl IndexError"
        using map_err_make_level_not_index [of ext ?raw]
        by (cases "map_err (make_level ext) (map PDict ?raw)")
           (auto simp: msa_sweep_params_def lv)
      then show "fst (?body val s') \<noteq> Some IndexError"
        using run_repeats_not_index
          [where ext = ext and title_of = "msa_sweep_title (ext_format ext) (PStr ''MSA'') (PInt k) val",
            OF title]
        by (cases "msa_sweep_params ext d (PDict base) (PInt k) val")
           (auto simp: try_eval_def)
    qed
    moreover have "msa_sweep_levels d (PDict base) (PInt k) v =
        Inr (map PDict (lds[j := swept_level pot dur v (lds ! j)]))"
      using msa_sweep_levels_at [OF assms(5) j, of d v] assms(8,9) by simp
    ultimately show ?thesis using False step jk by auto
  qed
qed

theorem msa_sweep_index_error_witness:
  "fst (run_step ext_ok chan0 1 (PDict step_msa_out) state0) = Some IndexError \<and>
   fst (run_step ext_ok chan0 1 (PDict step_msa_neg) state0) \<noteq> Some IndexError \<and>
   msa_sweep_levels step_msa_neg
       (PDict [(''n_cycles'', PInt 1),
          (''levels'', PList [PDict [(''level'', PInt 0), (''duration'', PInt 5)],
                              PDict [(''level'', PInt 1), (''duration'', PInt 6)]])])
       (PInt (- 1)) (PInt 2) =
     Inr [PDict [(''level'', PInt 0), (''duration'', PInt 5)],
          PDict [(''level'', PInt 2), (''duration'', PInt 6)]]"
  using msa_sweep_index_error [of step_msa_out
      "[(''n_cycles'', PInt 1),
          (''levels'', PList [PDict [(''level'', PInt 0), (''duration'', PInt 5)],
                              PDict [(''level'', PInt 1), (''duration'', PInt 6)]])]"
      "[[(''level'', PInt 0), (''duration'', PInt 5)], [(''level'', PInt 1), (''duration'', PInt 6)]]"
      2 "PInt 2" "[]" True False ext_ok chan0 1 state0]
    msa_sweep_index_error [of step_msa_neg
      "[(''n_cycles'', PInt 1),
          (''levels'', PList [PDict [(''level'', PInt 0), (''duration'', PInt 5)],
                              PDict [(''level'', PInt 1), (''duration'', PInt 6)]])]"
      "[[(''level'', PInt 0), (''duration'', PInt 5)], [(''level'', PInt 1), (''duration'', PInt 6)]]"
      "- 1" "PInt 2" "[]" True False ext_ok chan0 1 state0]
  by (simp add: step_msa_out_def step_msa_neg_def py_get_def swept_level_def)


text \<open>
  C2 as stated fails: with two levels and \<open>level_index = -1\<close> the step completes without
  any error, and its run has the swept value in the last level.
\<close>

theorem negative_level_index_counterexample:
  "run_step ext_ok chan0 1 (PDict step_msa_neg) state0 =
     (None,
      \<lparr>trace =
         [RunOne
           \<lparr>rc_mgr = 0, rc_ch = 0, rc_method = ''MSA'',
            rc_params =
              PDict
               [(''n_cycles'', PInt 1),
                (''_raw_levels'',
                 PList
                  [PDict [(''level'', PInt 0), (''duration'', PInt 5)],
                   PDict [(''level'', PInt 2), (''duration'', PInt 6)]]),
                (''levels'',
                 PList
                  [PObj [(''level'', PInt 0), (''duration'', PInt 5)],
                   PObj [(''level'', PInt 2), (''duration'', PInt 6)]])],
            rc_title = ''msa_lvl0_2_run1'', rc_conc = PNone,
            rc_session_dir = ''sessions/demo'', rc_exp_desc = ''exp''\<rparr>],
       world = ()\<rparr>)"
  by (simp add: step_msa_neg_def run_step_def try_eval_def py_get_def msa_sweep_params_def
      msa_sweep_levels_def set_level_field_def list_index_def make_level_def ext_ok_def
      run_repeats_def msa_sweep_title_def run_one_def andthen_def emit_def call_ext_def
      METHOD_FUNC_MAP_def mk_call_def state0_def chan0_def Let_def try_eval_Inr
      fmt_example_def lower_char_def str_int_def str_nat.simps save_params_def
      msa_params_def)

subsection \<open>Repeat counts below one\<close>

lemma run_repeats_none:
  "r < 1 \<Longrightarrow> run_repeats ext c m params conc (PInt r) title_of s = (None, s)"
  by (simp add: run_repeats_def try_eval_def)

lemma try_eval_runs:
  assumes "\<And>x s. runs_of (trace (snd (k x s))) = runs_of (trace s)"
  shows "runs_of (trace (snd (try_eval r k s))) = runs_of (trace s)"
  using assms by (cases r) (auto simp: try_eval_def)

text \<open>
  C3 (as amended). The code has no check of \<open>repeats\<close>: the runs of a step are the
  iterations of \<^verbatim>\<open>range(1, reps + 1)\<close>. A step whose \<open>repeats\<close> is an integer below 1
  makes no run at all, and raises no error for it: a single step whose parameters can
  be formed, and a sweep step of a method other than MSA with its fields present,
  complete with the state unchanged.
\<close>

theorem repeats_below_one_no_runs:
  assumes "py_get d ''repeats'' (PInt 1) = PInt r" and "r < 1"
  shows "runs_of (trace (snd (run_step ext c idx (PDict d) s))) = runs_of (trace s) \<and>
         (map_of d ''method'' = Some m \<and> py_get d ''type'' (PStr ''single'') = PStr ''single'' \<and>
          single_params ext m d = Inr params \<longrightarrow>
            run_step ext c idx (PDict d) s = (None, s)) \<and>
         (map_of d ''method'' = Some (PStr mn) \<and> mn \<noteq> ''MSA'' \<and>
          map_of d ''type'' = Some (PStr ''sweep'') \<and>
          map_of d ''base_params'' = Some (PDict base) \<and>
          map_of d ''sweep_param'' = Some (PStr sp) \<and>
          map_of d ''sweep_values'' = Some (PList vs) \<longrightarrow>
            run_step ext c idx (PDict d) s = (None, s))"
proof (intro conjI impI)
  have rep: "\<And>m params conc title_of s'.
      run_repeats ext c m params conc (PInt r) title_of s' = (None, s')"
    using assms(2) by (rule run_repeats_none)
  show "runs_of (trace (snd (run_step ext c idx (PDict d) s))) = runs_of (trace s)"
  proof (cases "map_of d ''method''")
    case None
    then show ?thesis by (simp add: run_step_def try_eval_def)
  next
    case (Some m')
    show ?thesis
      using Some assms(1)
      apply (simp add: run_step_def try_eval_Inr emit_def runs_of_append Let_def)
      apply (auto intro!: try_eval_runs for_each_nil_trace simp: rep)
      done
  qed
next
  assume "map_of d ''method'' = Some m \<and> py_get d ''type'' (PStr ''single'') = PStr ''single'' \<and>
          single_params ext m d = Inr params"
  then show "run_step ext c idx (PDict d) s = (None, s)"
    using assms by (simp add: run_step_def try_eval_def Let_def run_repeats_none)
next
  assume a: "map_of d ''method'' = Some (PStr mn) \<and> mn \<noteq> ''MSA'' \<and>
          map_of d ''type'' = Some (PStr ''sweep'') \<and>
          map_of d ''base_params'' = Some (PDict base) \<and>
          map_of d ''sweep_param'' = Some (PStr sp) \<and>
          map_of d ''sweep_values'' = Some (PList vs)"
  have "for_each (\<lambda>val. try_eval (sweep_params (PDict base) (PStr sp) val) (\<lambda>params.
           run_repeats ext c (PStr mn) params (py_get d ''concentration'' PNone) (PInt r)
             (sweep_title (ext_format ext) (PStr mn) (PStr sp) val))) vs s = (None, s)"
    using assms(2)
    by (induction vs) (simp_all add: try_eval_def sweep_params_def run_repeats_none)
  then show "run_step ext c idx (PDict d) s = (None, s)"
    using a assms(1) by (simp add: run_step_def try_eval_def Let_def py_get_def)
qed

theorem repeats_below_one_no_runs_witness:
  "runs_of (trace (snd (run_step ext_ok chan0 1 (PDict step_cv0) state0))) = [] \<and>
   run_step ext_ok chan0 1 (PDict step_cv0) state0 = (None, state0)"
  using repeats_below_one_no_runs [of step_cv0 0 ext_ok chan0 1 state0 "PStr ''CV''"
      "PDict [(''n_scans'', PInt 2)]"]
  by (simp add: step_cv0_def py_get_def single_params_def state0_def)

text \<open>
  C3 as stated fails: a single CV step with \<open>repeats = 0\<close> completes without an error
  and without a run.
\<close>

theorem zero_repeats_counterexample:
  "run_step ext_ok chan0 1 (PDict step_cv0) state0 = (None, state0)"
  by (simp add: step_cv0_def run_step_def try_eval_def py_get_def single_params_def
      run_repeats_def Let_def)


subsection \<open>Loading a plan\<close>

lemma map_err_setitem_dicts:
  "map_err (\<lambda>step. py_setitem step k v) (map PDict steps) =
     Inr (map (\<lambda>d. PDict (AList.update k v d)) steps)"
  by (induction steps) auto

text \<open>
  C4 (as amended). Loading validates neither \<open>method\<close> nor \<open>type\<close>: every plan whose
  \<open>sequence\<close> is a list of step objects loads, whatever its steps contain, and the
  loaded plan is the document with the concentration tag written into each step. There
  is no error that names a step index.
\<close>

theorem load_plan_no_validation:
  assumes "map_of p ''sequence'' = Some (PList (map PDict steps))"
  shows "load_plan conc (PDict p) =
           Inr (PDict (AList.update ''sequence''
                  (PList (map (\<lambda>d. PDict (AList.update ''concentration'' conc d)) steps)) p))"
  using assms by (simp add: load_plan_def map_err_setitem_dicts)

theorem load_plan_no_validation_witness:
  "load_plan (PStr ''1e-6'') (PDict plan_bogus) =
     Inr (PDict [(''name'', PStr ''demo''),
        (''sequence'', PList [PDict [(''method'', PStr ''XYZ''), (''type'', PStr ''bogus''),
                                     (''concentration'', PStr ''1e-6'')]])])"
  using load_plan_no_validation [of plan_bogus
      "[[(''method'', PStr ''XYZ''), (''type'', PStr ''bogus'')]]" "PStr ''1e-6''"]
  by (simp add: plan_bogus_def)

text \<open>
  C4 as stated fails: a plan whose only step has the method \<open>XYZ\<close> and the type
  \<open>bogus\<close> loads.
\<close>

theorem load_plan_counterexample:
  "load_plan PNone (PDict plan_bogus) =
     Inr (PDict
       [(''name'', PStr ''demo''),
        (''sequence'',
         PList
          [PDict
            [(''method'', PStr ''XYZ''), (''type'', PStr ''bogus''),
             (''concentration'', PNone)]])])"
  by (simp add: plan_bogus_def load_plan_def)

subsection \<open>A step without a type\<close>

lemma py_get_update_other:
  "k' \<noteq> k \<Longrightarrow> py_get (AList.update k v d) k' dflt = py_get d k' dflt"
  by (simp add: py_get_def update_conv')

lemma py_get_update_same: "py_get (AList.update k v d) k dflt = v"
  by (simp add: py_get_def update_conv')

lemma single_params_update_type:
  "single_params ext m (AList.update ''type'' v d) = single_params ext m d"
  by (simp add: single_params_def update_conv')

text \<open>
  C10. A step that has no \<open>type\<close> field runs exactly as the same step with
  \<open>type = single\<close> written out; in particular, when its method is known to \<open>run_one\<close>,
  its parameters can be formed and no run fails, it completes with its \<open>repeats\<close> runs
  of the single path, on the step's \<open>params\<close>.
\<close>

theorem absent_type_is_single:
  assumes "map_of d ''type'' = None"
  shows "run_step ext c idx (PDict (AList.update ''type'' (PStr ''single'') d)) s =
           run_step ext c idx (PDict d) s \<and>
         (map_of d ''method'' = Some (PStr m) \<and> m \<in> set METHOD_FUNC_MAP \<and>
          py_get d ''repeats'' (PInt 1) = PInt r \<and>
          single_params ext (PStr m) d = Inr (PDict kw) \<and> runs_succeed ext \<longrightarrow>
            fst (run_step ext c idx (PDict d) s) = None \<and>
            trace (snd (run_step ext c idx (PDict d) s)) =
              trace s @ map (\<lambda>i. RunOne (mk_call c (PStr m) (PDict kw)
                                  (py_get d ''concentration'' PNone)
                                  (map lower_char m @ ''_step'' @ str_nat idx @ ''_run'' @ str_int i)))
                          [1..r])"
proof (intro conjI impI)
  have t: "py_get d ''type'' (PStr ''single'') = PStr ''single''"
    using assms by (simp add: py_get_def)
  show "run_step ext c idx (PDict (AList.update ''type'' (PStr ''single'') d)) s =
           run_step ext c idx (PDict d) s"
  proof (cases "map_of d ''method''")
    case None
    then show ?thesis by (simp add: run_step_def try_eval_def update_conv')
  next
    case (Some m')
    then show ?thesis
      by (simp add: run_step_def try_eval_Inr t py_get_update_other py_get_update_same
          single_params_update_type update_conv' Let_def)
  qed
  assume a: "map_of d ''method'' = Some (PStr m) \<and> m \<in> set METHOD_FUNC_MAP \<and>
          py_get d ''repeats'' (PInt 1) = PInt r \<and>
          single_params ext (PStr m) d = Inr (PDict kw) \<and> runs_succeed ext"
  show "fst (run_step ext c idx (PDict d) s) = None"
    using single_runs [of d m r ext kw c idx s] a t by simp
  show "trace (snd (run_step ext c idx (PDict d) s)) =
              trace s @ map (\<lambda>i. RunOne (mk_call c (PStr m) (PDict kw)
                                  (py_get d ''concentration'' PNone)
                                  (map lower_char m @ ''_step'' @ str_nat idx @ ''_run'' @ str_int i)))
                          [1..r]"
    using single_runs [of d m r ext kw c idx s] a t by simp
qed

theorem absent_type_is_single_witness:
  "run_step ext_ok chan0 1 (PDict (step_cv_untyped @ [(''type'', PStr ''single'')])) state0 =
     run_step ext_ok chan0 1 (PDict step_cv_untyped) state0 \<and>
   fst (run_step ext_ok chan0 1 (PDict step_cv_untyped) state0) = None \<and>
   map rc_title (runs_of (trace (snd (run_step ext_ok chan0 1 (PDict step_cv_untyped) state0)))) =
     [''cv_step1_run1'', ''cv_step1_run2'']"
  using absent_type_is_single [of step_cv_untyped ext_ok chan0 1 state0 "''CV''" 2
      "[(''n_scans'', PInt 2)]"]
  by (simp add: step_cv_untyped_def METHOD_FUNC_MAP_def py_get_def single_params_def
      runs_succeed_ext_ok state0_def mk_call_def lower_char_def str_nat.simps str_int_def
      upto_rec1 numeral_eq_Suc)


subsection \<open>Errors of a step inside run_channel\<close>

lemma run_channel_steps:
  assumes "map_of managers ch = Some mgr" and "map_of p ''sequence'' = Some (PList steps)"
  shows "run_channel ext ch (PDict p) sd managers ed s =
           run_steps ext \<lparr>ch_mgr = mgr, ch_id = ch, ch_session_dir = sd, ch_exp_desc = ed\<rparr>
             (List.enumerate 1 steps) s"
  using assms by (simp add: run_channel_def try_eval_def)

lemma run_steps_split:
  assumes "run_steps ext c (List.enumerate n pre) s = (None, s1)"
  shows "run_steps ext c (List.enumerate n (pre @ step # post)) s =
           (case run_step ext c (n + length pre) step s1 of
              (None, s2) \<Rightarrow> run_steps ext c (List.enumerate (Suc (n + length pre)) post) s2
            | (Some e, s2) \<Rightarrow> (Some e, s2))"
  using assms unfolding run_steps_def
  by (simp add: enumerate_append_eq for_each_append)

lemma step_msa_out_raises:
  "run_step ext_ok chan0 1 (PDict step_msa_out) state0 = (Some IndexError, state0)"
  by (simp add: step_msa_out_def run_step_def try_eval_def py_get_def msa_sweep_params_def
      msa_sweep_levels_def set_level_field_def list_index_def Let_def)

text \<open>
  C8 (as amended). \<^verbatim>\<open>run_channel\<close> has no exception handler. Only a step whose type is
  neither \<open>single\<close> nor \<open>sweep\<close> is passed over: a warning is printed and the steps after
  it run. Every exception a step raises (a missing key, a level index out of range,
  a failing run) leaves \<^verbatim>\<open>run_channel\<close> at once, with the state reached: the steps
  after it do not run. Here \<open>pre\<close> are the steps before the step, which completed;
  \<open>Unmodelled\<close> is not an exception of the program and is left aside.
\<close>

theorem unknown_type_skipped_other_errors_abort:
  assumes "map_of managers ch = Some mgr"
    and "map_of p ''sequence'' = Some (PList (pre @ step # post))"
    and "c = \<lparr>ch_mgr = mgr, ch_id = ch, ch_session_dir = sd, ch_exp_desc = ed\<rparr>"
    and "run_steps ext c (List.enumerate 1 pre) s = (None, s1)"
  shows "(step = PDict d \<and> map_of d ''method'' = Some m \<and>
          ty = py_get d ''type'' (PStr ''single'') \<and>
          ty \<noteq> PStr ''single'' \<and> ty \<noteq> PStr ''sweep'' \<longrightarrow>
            run_channel ext ch (PDict p) sd managers ed s =
              run_steps ext c (List.enumerate (length pre + 2) post)
                (s1\<lparr>trace := trace s1 @ [SkipUnknownType ch ty]\<rparr>)) \<and>
         (run_step ext c (length pre + 1) step s1 = (Some e, s2) \<and> e \<noteq> Unmodelled \<longrightarrow>
            run_channel ext ch (PDict p) sd managers ed s = (Some e, s2))"
proof (intro conjI impI)
  have rc: "run_channel ext ch (PDict p) sd managers ed s =
      (case run_step ext c (1 + length pre) step s1 of
              (None, s2) \<Rightarrow> run_steps ext c (List.enumerate (Suc (1 + length pre)) post) s2
            | (Some e, s2) \<Rightarrow> (Some e, s2))"
    using run_channel_steps [OF assms(1,2), of ext sd ed s] run_steps_split [OF assms(4)] assms(3)
    by simp
  {
    assume a: "step = PDict d \<and> map_of d ''method'' = Some m \<and>
          ty = py_get d ''type'' (PStr ''single'') \<and>
          ty \<noteq> PStr ''single'' \<and> ty \<noteq> PStr ''sweep''"
    then have t: "py_get d ''type'' (PStr ''single'') \<noteq> PStr ''single''"
        "py_get d ''type'' (PStr ''single'') \<noteq> PStr ''sweep''"
        "py_get d ''type'' (PStr ''single'') = ty"
      by auto
    have "run_step ext c (1 + length pre) step s1 =
        (None, s1\<lparr>trace := trace s1 @ [SkipUnknownType ch ty]\<rparr>)"
      using a assms(3) t(1,2) by (simp add: run_step_def try_eval_def emit_def Let_def t(3))
    then show "run_channel ext ch (PDict p) sd managers ed s =
              run_steps ext c (List.enumerate (length pre + 2) post)
                (s1\<lparr>trace := trace s1 @ [SkipUnknownType ch ty]\<rparr>)"
      using rc by simp
  }
  {
    assume "run_step ext c (length pre + 1) step s1 = (Some e, s2) \<and> e \<noteq> Unmodelled"
    then show "run_channel ext ch (PDict p) sd managers ed s = (Some e, s2)"
      using rc by simp
  }
qed

theorem unknown_type_skipped_other_errors_abort_witness:
  "run_channel ext_ok 0 plan_bogus_then_cv ''sessions/demo'' [(0, 0)] ''exp'' state0 =
     run_steps ext_ok chan0 [(2, PDict step_cv)]
       (state0\<lparr>trace := trace state0 @ [SkipUnknownType 0 (PStr ''bogus'')]\<rparr>) \<and>
   run_channel ext_ok 0 plan_out_then_cv ''sessions/demo'' [(0, 0)] ''exp'' state0 =
     (Some IndexError, state0)"
proof -
  have pre: "run_steps ext_ok chan0 (List.enumerate 1 []) state0 = (None, state0)"
    by (simp add: run_steps_def)
  have c: "chan0 = \<lparr>ch_mgr = 0, ch_id = 0, ch_session_dir = ''sessions/demo'',
      ch_exp_desc = ''exp''\<rparr>"
    by (simp add: chan0_def)
  have m: "map_of [(0::int, 0::nat)] 0 = Some 0"
    by simp
  have p1: "map_of [(''sequence'', PList [PDict step_bogus, PDict step_cv])] ''sequence'' =
      Some (PList ([] @ PDict step_bogus # [PDict step_cv]))"
    by simp
  have p2: "map_of [(''name'', PStr ''demo''),
       (''sequence'', PList [PDict step_msa_out, PDict step_cv])] ''sequence'' =
      Some (PList ([] @ PDict step_msa_out # [PDict step_cv]))"
    by simp
  note sk = unknown_type_skipped_other_errors_abort [OF m p1 c pre,
      where d = step_bogus and m = "PStr ''CV''" and ty = "PStr ''bogus''"]
  note ab = unknown_type_skipped_other_errors_abort [OF m p2 c pre,
      where e = IndexError and ?s2.0 = state0]
  have "run_channel ext_ok 0 plan_bogus_then_cv ''sessions/demo'' [(0, 0)] ''exp'' state0 =
     run_steps ext_ok chan0 [(2, PDict step_cv)]
       (state0\<lparr>trace := trace state0 @ [SkipUnknownType 0 (PStr ''bogus'')]\<rparr>)"
    using sk by (simp add: plan_bogus_then_cv_def step_bogus_def py_get_def numeral_2_eq_2)
  moreover have "run_channel ext_ok 0 plan_out_then_cv ''sessions/demo'' [(0, 0)] ''exp'' state0 =
     (Some IndexError, state0)"
    using ab step_msa_out_raises by (simp add: plan_out_then_cv_def)
  ultimately show ?thesis by simp
qed

text \<open>
  C8 as stated fails: in a plan whose first step is an MSA level sweep with
  \<open>level_index = 2\<close> on two levels and whose second step is a CV step, the IndexError of
  the first step ends the channel's sequence; the CV step does not run and nothing is
  logged.
\<close>

theorem step_error_aborts_channel_counterexample:
  "run_channel ext_ok 0 plan_out_then_cv ''sessions/demo'' [(0, 0)] ''exp'' state0 =
     (Some IndexError, state0)"
  by (simp add: plan_out_then_cv_def run_channel_def run_steps_def step_msa_out_def
      run_step_def try_eval_def py_get_def msa_sweep_params_def
      msa_sweep_levels_def set_level_field_def list_index_def Let_def)

subsection \<open>What main does after the channel tasks\<close>

lemma for_each_keeps:
  assumes "\<And>x s. x \<in> set xs \<Longrightarrow> f (trace (snd (body x s))) = f (trace s)"
  shows "f (trace (snd (for_each body xs s))) = f (trace s)"
  using assms
proof (induction xs arbitrary: s)
  case Nil
  then show ?case by simp
next
  case (Cons x xs)
  show ?case
  proof (cases "body x s")
    case (Pair r s')
    have s': "f (trace s') = f (trace s)"
      using Cons.prems [of x s] Pair by simp
    show ?thesis
    proof (cases r)
      case None
      have "f (trace (snd (for_each body xs s'))) = f (trace s')"
        using Cons.IH [of s'] Cons.prems by simp
      then show ?thesis using Pair None s' by simp
    next
      case (Some e)
      then show ?thesis using Pair s' by simp
    qed
  qed
qed

lemma try_eval_keeps:
  assumes "\<And>x s. f (trace (snd (k x s))) = f (trace s)"
  shows "f (trace (snd (try_eval r k s))) = f (trace s)"
  using assms by (cases r) (auto simp: try_eval_def)

lemma andthen_keeps:
  assumes "\<And>s. f (trace (snd (p s))) = f (trace s)"
    and "\<And>s. f (trace (snd (q s))) = f (trace s)"
  shows "f (trace (snd (andthen p q s))) = f (trace s)"
proof (cases "p s")
  case (Pair r s')
  then have "f (trace s') = f (trace s)" using assms(1) [of s] by simp
  then show ?thesis using Pair assms(2) [of s']
    by (cases r) (auto simp: andthen_def)
qed

lemma gather_keeps:
  assumes "\<And>t s. t \<in> set ts \<Longrightarrow> f (trace (snd (t s))) = f (trace s)"
  shows "f (trace (snd (gather ts s))) = f (trace s)"
  using assms
proof (induction ts arbitrary: s)
  case Nil
  then show ?case by simp
next
  case (Cons t ts)
  obtain r s' where t: "t s = (r, s')" by (cases "t s")
  then have s': "f (trace s') = f (trace s)" using Cons.prems [of t s] by simp
  have "f (trace (snd (gather ts s'))) = f (trace s')"
    using Cons.IH [of s'] Cons.prems by simp
  then show ?case using t s' by (cases "gather ts s'") auto
qed

lemma call_ext_trace: "trace (snd (call_ext g s)) = trace s"
  by (cases "g (world s)") (simp add: call_ext_def)

lemma run_one_no_cleanup:
  "filter is_cleanup (trace (snd (run_one ext c s))) = filter is_cleanup (trace s)"
proof -
  have t: "filter is_cleanup (trace (snd ((if rc_method c \<notin> set METHOD_FUNC_MAP
        then raise (KeyError (PStr (rc_method c)))
        else try_eval (py_kwargs (rc_params c)) (\<lambda>kw.
               andthen (call_ext (ext_measure ext c))
                       (call_ext (ext_log ext c (save_params (rc_method c) kw))))) s'))) =
      filter is_cleanup (trace s')" for s'
    by (auto simp: raise_def call_ext_trace intro!: try_eval_keeps andthen_keeps)
  show ?thesis
    unfolding run_one_def
    by (intro andthen_keeps t) (simp_all add: emit_def call_ext_trace)
qed

lemma run_repeats_no_cleanup:
  "filter is_cleanup (trace (snd (run_repeats ext c m params conc reps title_of s))) =
     filter is_cleanup (trace s)"
  unfolding run_repeats_def
  by (intro try_eval_keeps for_each_keeps run_one_no_cleanup)

lemma run_step_no_cleanup:
  "filter is_cleanup (trace (snd (run_step ext c idx step s))) = filter is_cleanup (trace s)"
  unfolding run_step_def Let_def
  by (auto intro!: try_eval_keeps for_each_keeps run_repeats_no_cleanup simp: emit_def)

lemma run_channel_no_cleanup:
  "filter is_cleanup (trace (snd (run_channel ext ch plan sd managers ed s))) =
     filter is_cleanup (trace s)"
  unfolding run_channel_def run_steps_def
  by (auto intro!: try_eval_keeps for_each_keeps run_step_no_cleanup simp: raise_def
           split: option.splits)

lemma run_tasks_no_cleanup:
  "filter is_cleanup (trace (snd (run_tasks ext sd managers assignments s))) =
     filter is_cleanup (trace s)"
  unfolding run_tasks_def
  by (rule gather_keeps) (auto simp: run_channel_no_cleanup)

lemma connect_loop_no_cleanup:
  "filter is_cleanup (trace (snd (connect_loop ext n todo acc s))) = filter is_cleanup (trace s)"
proof (induction todo arbitrary: acc s)
  case Nil
  then show ?case by simp
next
  case (Cons ic todo)
  obtain i ch where ic: "ic = (i, ch)" by (cases ic)
  let ?p = "try_eval (list_index n ch) (\<lambda>j.
             andthen (emit (Connect i ch)) (call_ext (ext_connect ext i ch)))"
  have p: "filter is_cleanup (trace (snd (?p s))) = filter is_cleanup (trace s)"
    by (intro try_eval_keeps andthen_keeps) (simp_all add: emit_def call_ext_trace)
  obtain r s' where rs: "?p s = (r, s')" by (cases "?p s")
  show ?case
    using p rs ic Cons.IH [of "AList.update ch i acc" s']
    by (cases r) auto
qed

lemma connect_loop_keys:
  "connect_loop ext n todo acc s = (Inr managers, s') \<Longrightarrow>
     fst ` set managers = fst ` set acc \<union> snd ` set todo"
proof (induction todo arbitrary: acc s)
  case Nil
  then show ?case by simp
next
  case (Cons ic todo)
  obtain i ch where ic: "ic = (i, ch)" by (cases ic)
  let ?p = "try_eval (list_index n ch) (\<lambda>j.
             andthen (emit (Connect i ch)) (call_ext (ext_connect ext i ch)))"
  obtain r s1 where rs: "?p s = (r, s1)" by (cases "?p s")
  show ?case
  proof (cases r)
    case None
    then have "connect_loop ext n todo (AList.update ch i acc) s1 = (Inr managers, s')"
      using Cons.prems rs ic by simp
    then have "fst ` set managers = fst ` set (AList.update ch i acc) \<union> snd ` set todo"
      by (rule Cons.IH)
    then show ?thesis using ic by (auto simp: dom_update)
  next
    case (Some e)
    then show ?thesis using Cons.prems rs ic by simp
  qed
qed

lemma disconnect_trace: "trace (snd (disconnect ext mgr s)) = trace s @ [Disconnect mgr]"
  by (cases "ext_disconnect ext mgr (world s)")
     (simp add: disconnect_def andthen_def emit_def call_ext_def)

lemma gather_disconnect_trace:
  "trace (snd (gather (map (\<lambda>cm. disconnect ext (snd cm)) ms) s)) =
     trace s @ map (\<lambda>cm. Disconnect (snd cm)) ms"
proof (induction ms arbitrary: s)
  case Nil
  then show ?case by simp
next
  case (Cons cm ms)
  obtain r s' where d: "disconnect ext (snd cm) s = (r, s')"
    by (cases "disconnect ext (snd cm) s")
  then have "trace s' = trace s @ [Disconnect (snd cm)]"
    using disconnect_trace [of ext "snd cm" s] by simp
  then show ?case using d Cons.IH [of s']
    by (cases "gather (map (\<lambda>cm. disconnect ext (snd cm)) ms) s'") auto
qed

lemma save_session_trace: "trace (snd (save_session ext s)) = trace s @ [SaveSession]"
  by (cases "ext_save ext (world s)")
     (simp add: save_session_def andthen_def emit_def call_ext_def)

text \<open>
  C1 (as amended). \<^verbatim>\<open>main\<close> has no exception handler around the channel tasks.
  When every channel's run sequence completes, \<^verbatim>\<open>main\<close> attempts to disconnect the
  manager of every selected channel and then, if no disconnect raised, saves the
  session. When a channel's run sequence raises, the exception leaves \<^verbatim>\<open>main\<close> at
  \<^verbatim>\<open>await asyncio.gather(*tasks)\<close>: \<^verbatim>\<open>main\<close> ends in the state the tasks left, with
  no disconnect and no save. (\<open>s1\<close> is the state after connecting, \<open>s2\<close> after the
  tasks; connecting and running add no disconnect and no save to the trace;
  \<open>Unmodelled\<close> is not an exception of the program and is left aside.)
\<close>

theorem cleanup_only_after_all_tasks_succeed:
  assumes "connect_channels ext channels n s = (Inr managers, s1)"
    and "run_tasks ext sd managers assignments s1 = (r, s2)"
  shows "fst ` set managers = set channels \<and>
         filter is_cleanup (trace s2) = filter is_cleanup (trace s) \<and>
         (r = Some e \<and> e \<noteq> Unmodelled \<longrightarrow>
            main_run ext channels n sd assignments s = (Some e, s2)) \<and>
         (r = None \<longrightarrow>
            trace (snd (main_run ext channels n sd assignments s)) =
              trace s2 @ map (\<lambda>cm. Disconnect (snd cm)) managers @
                (if fst (gather (map (\<lambda>cm. disconnect ext (snd cm)) managers) s2) = None
                 then [SaveSession] else []))"
proof (intro conjI impI)
  show "fst ` set managers = set channels"
    using connect_loop_keys [of ext n "List.enumerate 0 channels" "[]" s managers s1] assms(1)
    by (simp add: connect_channels_def image_image [symmetric] del: image_image)
       (metis list.set_map map_snd_enumerate)
  have "filter is_cleanup (trace s1) = filter is_cleanup (trace s)"
    using connect_loop_no_cleanup [of ext n "List.enumerate 0 channels" "[]" s] assms(1)
    by (simp add: connect_channels_def)
  moreover have "filter is_cleanup (trace s2) = filter is_cleanup (trace s1)"
    using run_tasks_no_cleanup [of ext sd managers assignments s1] assms(2) by simp
  ultimately show "filter is_cleanup (trace s2) = filter is_cleanup (trace s)" by simp
  {
    assume "r = Some e \<and> e \<noteq> Unmodelled"
    then show "main_run ext channels n sd assignments s = (Some e, s2)"
      using assms by (simp add: main_run_def andthen_def)
  }
  {
    assume r: "r = None"
    let ?g = "gather (map (\<lambda>cm. disconnect ext (snd cm)) managers)"
    obtain r3 s3 where g: "?g s2 = (r3, s3)" by (cases "?g s2")
    have t3: "trace s3 = trace s2 @ map (\<lambda>cm. Disconnect (snd cm)) managers"
      using gather_disconnect_trace [of ext managers s2] g by simp
    have m: "main_run ext channels n sd assignments s =
        (case r3 of None \<Rightarrow> save_session ext s3 | Some e' \<Rightarrow> (Some e', s3))"
      using assms r g by (simp add: main_run_def andthen_def split: option.splits)
    show "trace (snd (main_run ext channels n sd assignments s)) =
              trace s2 @ map (\<lambda>cm. Disconnect (snd cm)) managers @
                (if fst (?g s2) = None then [SaveSession] else [])"
      using m g t3 save_session_trace [of ext s3] by (cases r3) auto
  }
qed

theorem cleanup_only_after_all_tasks_succeed_witness:
  "main_run ext_fail0 [0, 1] 2 ''sessions/demo'' two_assignments state0 =
     (Some (External ''device error''), s_ran) \<and>
   trace (snd (main_run ext_ok [0, 1] 2 ''sessions/demo'' two_assignments state0)) =
     trace s_ran @ [Disconnect 0, Disconnect 1, SaveSession]"
proof -
  have c1: "connect_channels ext_fail0 [0, 1] 2 state0 = (Inr [(0, 0), (1, 1)], s_conn)"
    by code_simp
  have t1: "run_tasks ext_fail0 ''sessions/demo'' [(0, 0), (1, 1)] two_assignments s_conn =
      (Some (External ''device error''), s_ran)"
    by code_simp
  have c2: "connect_channels ext_ok [0, 1] 2 state0 = (Inr [(0, 0), (1, 1)], s_conn)"
    by code_simp
  have t2: "run_tasks ext_ok ''sessions/demo'' [(0, 0), (1, 1)] two_assignments s_conn =
      (None, s_ran)"
    by code_simp
  have g: "fst (gather (map (\<lambda>cm. disconnect ext_ok (snd cm)) [(0::int, 0), (1, 1)]) s_ran) = None"
    by code_simp
  show ?thesis
    using cleanup_only_after_all_tasks_succeed [OF c1 t1, of "External ''device error''"]
      cleanup_only_after_all_tasks_succeed [OF c2 t2] g
    by simp
qed

text \<open>
  C1 as stated fails: with two channels, each running one CV step, and a device that
  fails on channel 0, \<^verbatim>\<open>main\<close> ends with the device's error; both managers were
  connected, none is disconnected and the session is not saved.
\<close>

theorem failing_channel_counterexample:
  "main_run ext_fail0 [0, 1] 2 ''sessions/demo'' two_assignments state0 =
     (Some (External ''device error''),
      \<lparr>trace =
         [Connect 0 0, Connect 1 1,
          RunOne
           \<lparr>rc_mgr = 0, rc_ch = 0, rc_method = ''CV'',
            rc_params = PDict [(''n_scans'', PInt 2)],
            rc_title = ''cv_step1_run1'', rc_conc = PNone,
            rc_session_dir = ''sessions/demo'', rc_exp_desc = ''exp''\<rparr>,
          RunOne
           \<lparr>rc_mgr = 1, rc_ch = 1, rc_method = ''CV'',
            rc_params = PDict [(''n_scans'', PInt 2)],
            rc_title = ''cv_step1_run1'', rc_conc = PNone,
            rc_session_dir = ''sessions/demo'', rc_exp_desc = ''exp''\<rparr>],
       world = ()\<rparr>)"
  by code_simp

subsection \<open>The store keeps what it held\<close>

lemma grows_refl: "n \<le> length h \<Longrightarrow> grows n h h"
  by (simp add: grows_def)

lemma grows_trans: "grows n h h1 \<Longrightarrow> grows n h1 h2 \<Longrightarrow> grows n h h2"
  by (simp add: grows_def)

lemma grows_append: "n \<le> length h \<Longrightarrow> grows n h (h @ xs)"
  by (simp add: grows_def)

lemma grows_update: "n \<le> length h \<Longrightarrow> n \<le> a \<Longrightarrow> grows n h (h[a := ob])"
  by (simp add: grows_def)

lemma frame_return: "Q x \<Longrightarrow> frame n (hreturn x) Q"
  by (simp add: frame_def hreturn_def grows_refl)

lemma frame_raise: "frame n (hraise e) Q"
  by (simp add: frame_def hraise_def grows_refl)

lemma frame_read: "(\<And>h x. f h = Inr x \<Longrightarrow> Q x) \<Longrightarrow> frame n (hread f) Q"
  by (simp add: frame_def hread_def grows_refl)

lemma frame_read_any: "frame n (hread f) (\<lambda>x. True)"
  by (simp add: frame_read)

lemma frame_external: "frame n (st_external f) (\<lambda>x. True)"
  by (auto simp: frame_def st_external_def grows_refl split: option.splits)

lemma frame_weaken: "frame n m P \<Longrightarrow> (\<And>x. P x \<Longrightarrow> Q x) \<Longrightarrow> frame n m Q"
  by (simp add: frame_def)

lemma frame_bind:
  assumes "frame n m P" and "\<And>x. P x \<Longrightarrow> frame n (k x) Q"
  shows "frame n (hbind m k) Q"
  unfolding frame_def
proof (intro allI impI)
  fix h :: heap
  assume n: "n \<le> length h"
  obtain r h1 where m: "m h = (r, h1)" by (cases "m h")
  have g1: "grows n h h1" and p: "\<And>x. r = Inr x \<Longrightarrow> P x"
    using assms(1) n m by (auto simp: frame_def)
  show "grows n h (snd (hbind m k h)) \<and> (\<forall>x. fst (hbind m k h) = Inr x \<longrightarrow> Q x)"
  proof (cases r)
    case (Inl e)
    then show ?thesis using m g1 by (simp add: hbind_def)
  next
    case (Inr x)
    have n1: "n \<le> length h1" using g1 by (simp add: grows_def)
    have "grows n h1 (snd (k x h1)) \<and> (\<forall>y. fst (k x h1) = Inr y \<longrightarrow> Q y)"
      using assms(2) [OF p [OF Inr]] n1 by (simp add: frame_def)
    then show ?thesis using m Inr g1 by (auto simp: hbind_def intro: grows_trans)
  qed
qed

lemma frame_alloc: "frame n (h_alloc ob) (\<lambda>a. n \<le> a)"
  by (simp add: frame_def h_alloc_def grows_append)

lemma frame_setitem:
  assumes "\<And>a. v = HRef a \<Longrightarrow> n \<le> a"
  shows "frame n (st_setitem v k x) (\<lambda>u. True)"
  using assms
  by (auto simp: frame_def st_setitem_def grows_refl grows_update
           split: hval.splits option.splits hobj.splits)

lemma frame_pop:
  assumes "\<And>a. v = HRef a \<Longrightarrow> n \<le> a"
  shows "frame n (st_pop v k) (\<lambda>u. True)"
  using assms
  by (auto simp: frame_def st_pop_def grows_refl grows_update
           split: hval.splits option.splits hobj.splits)

lemma frame_hmap:
  assumes "\<And>x. frame n (f x) Q"
  shows "frame n (hmap f xs) (list_all Q)"
proof (induction xs)
  case Nil
  then show ?case by (simp add: frame_return)
next
  case (Cons x xs)
  show ?case
    unfolding hmap.simps
    by (rule frame_bind [OF assms], rule frame_bind [OF Cons.IH], rule frame_return) simp
qed

lemma frame_hfor:
  assumes "\<And>x. frame n (body x) (\<lambda>u. True)"
  shows "frame n (hfor body xs) (\<lambda>u. True)"
proof (induction xs)
  case Nil
  then show ?case by (simp add: frame_return)
next
  case (Cons x xs)
  show ?case
    unfolding hfor.simps
    by (rule frame_bind [OF assms]) (rule Cons.IH)
qed

lemma frame_copy: "frame n (st_copy v) (\<lambda>r. \<exists>a. r = HRef a \<and> n \<le> a)"
proof -
  have a: "frame n (hbind (h_alloc ob) (\<lambda>a. hreturn (HRef a))) (\<lambda>r. \<exists>a. r = HRef a \<and> n \<le> a)"
    for ob
    by (rule frame_bind [OF frame_alloc]) (simp add: frame_return)
  show ?thesis
    unfolding frame_def
  proof (intro allI impI)
    fix h :: heap
    assume n: "n \<le> length h"
    show "grows n h (snd (st_copy v h)) \<and>
          (\<forall>x. fst (st_copy v h) = Inr x \<longrightarrow> (\<exists>a. x = HRef a \<and> n \<le> a))"
      using a n
      by (auto simp: st_copy_def frame_def grows_refl split: option.splits hobj.splits)
  qed
qed

lemma frame_level: "frame n (st_level ext l) (\<lambda>r. True)"
  unfolding st_level_def
  by (rule frame_bind [OF frame_read_any])
     (auto split: option.splits intro!: frame_raise frame_bind [OF frame_alloc] frame_return)

lemma frame_run_one_store: "frame n (run_one_store ext mn params) (\<lambda>u. True)"
  unfolding run_one_store_def
  by (intro frame_bind [OF frame_external] frame_bind [OF frame_read_any] frame_external
        frame_bind [where P = "\<lambda>u. True"])
     (auto intro!: frame_return frame_raise frame_bind [OF frame_alloc]
        frame_bind [OF frame_pop] frame_setitem)

lemma frame_run_repeats_store: "frame n (run_repeats_store ext m params reps li) (\<lambda>u. True)"
  unfolding run_repeats_store_def
  by (intro frame_bind [OF frame_read_any] frame_hfor frame_run_one_store)

lemma frame_sweep_params_store:
  "frame n (sweep_params_store base sp val) (\<lambda>u. True)"
  unfolding sweep_params_store_def
  by (rule frame_bind [OF frame_read_any], rule frame_bind [OF frame_alloc],
      rule frame_bind [where P = "\<lambda>u. True"])
     (auto split: hval.splits intro!: frame_setitem frame_raise frame_return)


lemma hbind_read:
  "hbind (hread f) k h = (case f h of Inl e \<Rightarrow> (Inl e, h) | Inr x \<Rightarrow> k x h)"
  by (simp add: hbind_def hread_def split: sum.splits)

lemma st_copy_cases:
  "st_copy v h = (Inl AttributeError, h) \<or>
   (\<exists>ob. st_copy v h = (Inr (HRef (length h)), h @ [ob]))"
  by (auto simp: st_copy_def hbind_def h_alloc_def hreturn_def split: option.splits hobj.splits)

lemma hmap_copy_post:
  assumes "n \<le> length h" and "hmap st_copy lvls h = (res, h1)"
  shows "grows n h h1 \<and>
         (\<forall>cs. res = Inr cs \<longrightarrow>
            (\<forall>x\<in>set cs. \<exists>a. x = HRef a \<and> length h \<le> a \<and> a < length h1))"
  using assms
proof (induction lvls arbitrary: h res h1)
  case Nil
  then show ?case by (auto simp: hreturn_def grows_refl)
next
  case (Cons v lvls)
  from st_copy_cases [of v h] show ?case
  proof
    assume "st_copy v h = (Inl AttributeError, h)"
    then show ?thesis using Cons.prems by (auto simp: hbind_def grows_refl)
  next
    assume "\<exists>ob. st_copy v h = (Inr (HRef (length h)), h @ [ob])"
    then obtain ob where c: "st_copy v h = (Inr (HRef (length h)), h @ [ob])" ..
    obtain r2 h2 where t: "hmap st_copy lvls (h @ [ob]) = (r2, h2)"
      by (cases "hmap st_copy lvls (h @ [ob])")
    have ih: "grows n (h @ [ob]) h2 \<and>
         (\<forall>cs. r2 = Inr cs \<longrightarrow>
            (\<forall>x\<in>set cs. \<exists>a. x = HRef a \<and> length (h @ [ob]) \<le> a \<and> a < length h2))"
      using Cons.IH [OF _ t] Cons.prems(1) by simp
    have g: "grows n h h2"
      using ih grows_append [OF Cons.prems(1), of "[ob]"] by (blast intro: grows_trans)
    have len: "length h < length h2" using ih by (simp add: grows_def)
    show ?thesis
    proof (cases r2)
      case (Inl e)
      then have "h1 = h2"
        using Cons.prems(2) c t by (simp add: hbind_def hreturn_def)
      moreover have "res = Inl e"
        using Cons.prems(2) c t Inl by (simp add: hbind_def hreturn_def)
      ultimately show ?thesis using g by simp
    next
      case (Inr ys)
      then have "res = Inr (HRef (length h) # ys)" and "h1 = h2"
        using Cons.prems(2) c t by (simp_all add: hbind_def hreturn_def)
      then show ?thesis using g ih Inr len by fastforce
    qed
  qed
qed

lemma index_in_set:
  "bind_err (list_index (length xs) i) (\<lambda>j. Inr (xs ! j)) = Inr x \<Longrightarrow> x \<in> set xs"
  using list_index_bound [of "length xs" i]
  by (cases "list_index (length xs) i") auto

lemma st_copy_levels_post:
  assumes "n \<le> length h" and "st_copy_levels base h = (res, h2)"
  shows "grows n h h2 \<and>
         (\<forall>raw. res = Inr raw \<longrightarrow>
            (\<exists>r xs. raw = HRef r \<and> r < length h2 \<and> n \<le> r \<and> h2 ! r = HList xs \<and>
               (\<forall>x\<in>set xs. \<exists>a. x = HRef a \<and> n \<le> a \<and> a < r)))"
proof (cases "st_getitem base ''levels'' h")
  case (Inl e)
  then show ?thesis using assms by (auto simp: st_copy_levels_def hbind_read grows_refl)
next
  case lv: (Inr lv)
  show ?thesis
  proof (cases "st_iter lv h")
    case (Inl e)
    then show ?thesis using assms lv by (auto simp: st_copy_levels_def hbind_read grows_refl)
  next
    case (Inr lvls)
    obtain r1 h1 where t: "hmap st_copy lvls h = (r1, h1)"
      by (cases "hmap st_copy lvls h")
    note post = hmap_copy_post [OF assms(1) t]
    have eq: "(res, h2) = (case r1 of Inl e \<Rightarrow> (Inl e, h1)
                 | Inr cs \<Rightarrow> (Inr (HRef (length h1)), h1 @ [HList cs]))"
      using assms(2) lv Inr t
      by (simp add: st_copy_levels_def hbind_read)
         (simp add: hbind_def h_alloc_def hreturn_def split: sum.splits)
    show ?thesis
    proof (cases r1)
      case (Inl e)
      then show ?thesis using eq post by simp
    next
      case cs: (Inr cs)
      then have r: "res = Inr (HRef (length h1))" and h2: "h2 = h1 @ [HList cs]"
        using eq by simp_all
      have n1: "n \<le> length h1" using post by (simp add: grows_def)
      have "grows n h h2"
        using post grows_append [OF n1, of "[HList cs]"] h2 by (blast intro: grows_trans)
      moreover have "\<forall>x\<in>set cs. \<exists>a. x = HRef a \<and> n \<le> a \<and> a < length h1"
        using post cs assms(1) by fastforce
      ultimately show ?thesis using r h2 n1 by simp
    qed
  qed
qed

lemma st_sweep_field_post:
  assumes "n \<le> length h" and "r < length h" and "h ! r = HList xs"
    and "\<forall>x\<in>set xs. \<exists>a. x = HRef a \<and> n \<le> a \<and> a < r"
    and "st_sweep_field step flag (HRef r) lvl_idx key val h = (res, h')"
  shows "grows n h h' \<and> length h' = length h \<and> h' ! r = HList xs"
proof (cases "st_flag step flag h")
  case (Inl e)
  then show ?thesis using assms by (auto simp: st_sweep_field_def hbind_read grows_refl)
next
  case (Inr b)
  show ?thesis
  proof (cases b)
    case False
    then show ?thesis
      using assms Inr by (auto simp: st_sweep_field_def hbind_read hreturn_def grows_refl)
  next
    case True
    have run: "(res, h') =
        (case st_index (HRef r) lvl_idx h of Inl e \<Rightarrow> (Inl e, h)
         | Inr lvl \<Rightarrow> st_setitem lvl key val h)"
      using assms(5) Inr True by (simp add: st_sweep_field_def hbind_read)
    show ?thesis
    proof (cases "st_index (HRef r) lvl_idx h")
      case (Inl e)
      then show ?thesis using run assms(1,3) by (simp add: grows_refl)
    next
      case lvl: (Inr lvl)
      then have "lvl \<in> set xs"
        using assms(2,3)
        by (auto simp: st_index_def st_obj_def split: hval.splits dest: index_in_set)
      then obtain a where a: "lvl = HRef a" "n \<le> a" "a < r"
        using assms(4) by blast
      have "(res, h') = st_setitem (HRef a) key val h" using run lvl a by simp
      then show ?thesis
        using a assms(1,2,3)
        by (auto simp: st_setitem_def st_obj_def grows_refl grows_update
                 split: option.splits hobj.splits if_splits)
    qed
  qed
qed

lemma frame_raw_levels: "frame n (st_raw_levels step base lvl_idx val) (\<lambda>raw. True)"
  unfolding frame_def
proof (intro allI impI)
  fix h :: heap
  assume n: "n \<le> length h"
  obtain r0 h0 where c: "st_copy_levels base h = (r0, h0)"
    by (cases "st_copy_levels base h")
  note post = st_copy_levels_post [OF n c]
  have "grows n h (snd (st_raw_levels step base lvl_idx val h))"
  proof (cases r0)
    case (Inl e)
    then show ?thesis using c post by (simp add: st_raw_levels_def hbind_def)
  next
    case (Inr raw)
    then obtain r xs where raw: "raw = HRef r" and r: "r < length h0" "h0 ! r = HList xs"
      and fresh: "\<forall>x\<in>set xs. \<exists>a. x = HRef a \<and> n \<le> a \<and> a < r"
      using post by blast
    have n0: "n \<le> length h0" using post by (simp add: grows_def)
    obtain r1 h1 where f1:
      "st_sweep_field step ''sweep_potential'' (HRef r) lvl_idx ''level'' val h0 = (r1, h1)"
      by (cases "st_sweep_field step ''sweep_potential'' (HRef r) lvl_idx ''level'' val h0")
    note p1 = st_sweep_field_post [OF n0 r fresh f1]
    obtain r2 h2 where f2:
      "st_sweep_field step ''sweep_duration'' (HRef r) lvl_idx ''duration'' val h1 = (r2, h2)"
      by (cases "st_sweep_field step ''sweep_duration'' (HRef r) lvl_idx ''duration'' val h1")
    have n1: "n \<le> length h1" and r1': "r < length h1" using p1 n0 r(1) by simp_all
    have hr1: "h1 ! r = HList xs" using p1 by simp
    note p2 = st_sweep_field_post [OF n1 r1' hr1 fresh f2]
    have g: "grows n h h1" "grows n h h2"
      using post p1 p2 by (blast intro: grows_trans)+
    have "snd (st_raw_levels step base lvl_idx val h) = h1 \<or>
          snd (st_raw_levels step base lvl_idx val h) = h2"
      using c Inr raw f1 f2
      by (auto simp: st_raw_levels_def hbind_def hreturn_def split: sum.splits)
    then show ?thesis using g by auto
  qed
  then show "grows n h (snd (st_raw_levels step base lvl_idx val h)) \<and>
        (\<forall>x. fst (st_raw_levels step base lvl_idx val h) = Inr x \<longrightarrow> True)"
    by simp
qed

lemma frame_msa_sweep_params_store:
  "frame n (msa_sweep_params_store ext step base lvl_idx val) (\<lambda>u. True)"
  unfolding msa_sweep_params_store_def
  by (intro frame_bind [OF frame_raw_levels] frame_bind [OF frame_read_any]
        frame_bind [OF frame_alloc] frame_bind [OF frame_setitem]
        frame_bind [OF frame_hmap [OF frame_level]] frame_return)
     simp_all

lemma frame_sweep_store: "frame n (sweep_store ext step m reps) (\<lambda>u. True)"
  unfolding sweep_store_def
  by (intro frame_bind [OF frame_read_any] frame_bind [where P = "\<lambda>b. True"])
     (auto intro!: frame_read_any frame_return frame_hfor frame_bind [OF frame_read_any]
        frame_bind [OF frame_msa_sweep_params_store] frame_bind [OF frame_sweep_params_store]
        frame_run_repeats_store)

text \<open>
  C9. Expanding a sweep step writes to no object that existed before the expansion:
  whatever the step, the method, the repeat count and the store are, and whether the
  expansion completes or raises, the store afterwards begins with the store before,
  object for object. Every write goes to an object the expansion allocated itself
  (the copy of a level made by \<^verbatim>\<open>lvl.copy()\<close>, the new \<open>params\<close> dict, the copy
  \<open>run_one\<close> logs). So the step, its \<open>base_params\<close>, the list of levels and each level
  dict are what they were before.
\<close>

theorem sweep_leaves_step_unchanged:
  "take (length h) (snd (sweep_store ext step m reps h)) = h"
  using frame_sweep_store [of "length h" ext step m reps]
  by (simp add: frame_def grows_def)


theorem sweep_leaves_step_unchanged_witness:
  "take (length heap_msa)
     (snd (sweep_store store_ok (HRef 5) (HStr ''MSA'') (HInt 1) heap_msa)) = heap_msa \<and>
   sweep_store store_ok (HRef 5) (HStr ''MSA'') (HInt 1) heap_msa =
     (Inr (),
      heap_msa @
      [HDict [(''level'', HInt 0), (''duration'', HInt 5)],
       HDict [(''level'', HInt 2), (''duration'', HInt 6)],
       HList [HRef 6, HRef 7],
       HDict [(''n_cycles'', HInt 1), (''_raw_levels'', HRef 8), (''levels'', HRef 12)],
       HLevel [(''level'', HInt 0), (''duration'', HInt 5)],
       HLevel [(''level'', HInt 2), (''duration'', HInt 6)],
       HList [HRef 10, HRef 11],
       HDict [(''n_cycles'', HInt 1), (''levels'', HRef 8)]])"
proof -
  have "sweep_store store_ok (HRef 5) (HStr ''MSA'') (HInt 1) heap_msa =
     (Inr (),
      heap_msa @
      [HDict [(''level'', HInt 0), (''duration'', HInt 5)],
       HDict [(''level'', HInt 2), (''duration'', HInt 6)],
       HList [HRef 6, HRef 7],
       HDict [(''n_cycles'', HInt 1), (''_raw_levels'', HRef 8), (''levels'', HRef 12)],
       HLevel [(''level'', HInt 0), (''duration'', HInt 5)],
       HLevel [(''level'', HInt 2), (''duration'', HInt 6)],
       HList [HRef 10, HRef 11],
       HDict [(''n_cycles'', HInt 1), (''levels'', HRef 8)]])"
    by code_simp
  then show ?thesis
    using sweep_leaves_step_unchanged [of heap_msa store_ok "HRef 5" "HStr ''MSA''" "HInt 1"]
    by simp
qed

end
